theory Spec2Isabelle
  imports Main
begin

section \<open>Strings of the runtime\<close>

text \<open>
  A string of the program is a sequence of UTF-16 code units; a code unit is modelled as a
  natural number.  \<open>js\<close> turns an ASCII literal into such a sequence.
\<close>

type_synonym jschar = nat
type_synonym jsstring = "jschar list"

definition js :: "string \<Rightarrow> jsstring" where
  "js s = map of_char s"

text \<open>
  The class \<open>\s\<close> of a regular expression: the white space and line terminator code units
  (TAB, LF, VT, FF, CR, SP, NBSP, U+1680, U+2000 to U+200A, U+2028, U+2029, U+202F, U+205F,
  U+3000, U+FEFF).
\<close>

definition isWhiteSpace :: "jschar \<Rightarrow> bool" where
  "isWhiteSpace c =
     (c = 9 \<or> c = 10 \<or> c = 11 \<or> c = 12 \<or> c = 13 \<or> c = 32 \<or> c = 160 \<or> c = 5760 \<or>
      (8192 \<le> c \<and> c \<le> 8202) \<or> c = 8232 \<or> c = 8233 \<or> c = 8239 \<or> c = 8287 \<or>
      c = 12288 \<or> c = 65279)"

text \<open>The class \<open>[0-9]\<close>.\<close>

definition isDigit :: "jschar \<Rightarrow> bool" where
  "isDigit c = (48 \<le> c \<and> c \<le> 57)"

text \<open>The class \<open>[^\s@]\<close>; the code unit of \<open>@\<close> is 64.\<close>

definition notSpaceAt :: "jschar \<Rightarrow> bool" where
  "notSpaceAt c = (\<not> isWhiteSpace c \<and> c \<noteq> 64)"

text \<open>The class \<open>[\s-]\<close>; the code unit of \<open>-\<close> is 45.\<close>

definition spaceOrDash :: "jschar \<Rightarrow> bool" where
  "spaceOrDash c = (isWhiteSpace c \<or> c = 45)"

text \<open>\<open>s.replace(/[\s-]/g, '')\<close>: every code unit of the class is deleted.\<close>

definition stripSpacesDashes :: "jsstring \<Rightarrow> jsstring" where
  "stripSpacesDashes s = filter (\<lambda>c. \<not> spaceOrDash c) s"

section \<open>Regular expressions\<close>

text \<open>
  The two patterns of the registration handler use character classes, sequencing, \<open>+\<close>
  and the bounded repetition \<open>{10,11}\<close>, anchored at both ends.  They are embedded as
  values of \<open>pattern\<close>; \<open>test\<close> decides a whole string by taking the derivative of the
  pattern at every code unit.
\<close>

datatype pattern =
    Never
  | Blank
  | OneOf "jschar \<Rightarrow> bool"
  | Either pattern pattern
  | Then pattern pattern
  | Many pattern

fun acceptsEmpty :: "pattern \<Rightarrow> bool" where
  "acceptsEmpty Never = False"
| "acceptsEmpty Blank = True"
| "acceptsEmpty (OneOf P) = False"
| "acceptsEmpty (Either p q) = (acceptsEmpty p \<or> acceptsEmpty q)"
| "acceptsEmpty (Then p q) = (acceptsEmpty p \<and> acceptsEmpty q)"
| "acceptsEmpty (Many p) = True"

fun after :: "jschar \<Rightarrow> pattern \<Rightarrow> pattern" where
  "after c Never = Never"
| "after c Blank = Never"
| "after c (OneOf P) = (if P c then Blank else Never)"
| "after c (Either p q) = Either (after c p) (after c q)"
| "after c (Then p q) =
     (if acceptsEmpty p then Either (Then (after c p) q) (after c q)
      else Then (after c p) q)"
| "after c (Many p) = Then (after c p) (Many p)"

fun test :: "pattern \<Rightarrow> jsstring \<Rightarrow> bool" where
  "test p [] = acceptsEmpty p"
| "test p (c # s) = test (after c p) s"

text \<open>\<open>p+\<close>, \<open>p?\<close> and \<open>p{n}\<close>.\<close>

definition oneOrMore :: "pattern \<Rightarrow> pattern" where
  "oneOrMore p = Then p (Many p)"

definition optional :: "pattern \<Rightarrow> pattern" where
  "optional p = Either p Blank"

fun exactly :: "nat \<Rightarrow> pattern \<Rightarrow> pattern" where
  "exactly 0 p = Blank"
| "exactly (Suc n) p = Then p (exactly n p)"

text \<open>\<open>/^[^\s@]+@[^\s@]+\.[^\s@]+$/\<close>; the code unit of the dot is 46.\<close>

definition emailRegex :: pattern where
  "emailRegex =
     Then (oneOrMore (OneOf notSpaceAt))
       (Then (OneOf (\<lambda>c. c = 64))
         (Then (oneOrMore (OneOf notSpaceAt))
           (Then (OneOf (\<lambda>c. c = 46))
             (oneOrMore (OneOf notSpaceAt)))))"

text \<open>\<open>/^[0-9]{10,11}$/\<close>.\<close>

definition phoneRegex :: pattern where
  "phoneRegex = Then (exactly 10 (OneOf isDigit)) (optional (OneOf isDigit))"

text \<open>The words matched by a pattern.\<close>

inductive_set repeated :: "jsstring set \<Rightarrow> jsstring set" for L :: "jsstring set" where
  none: "[] \<in> repeated L"
| more: "u \<in> L \<Longrightarrow> v \<in> repeated L \<Longrightarrow> u @ v \<in> repeated L"

fun words :: "pattern \<Rightarrow> jsstring set" where
  "words Never = {}"
| "words Blank = {[]}"
| "words (OneOf P) = {[c] | c. P c}"
| "words (Either p q) = words p \<union> words q"
| "words (Then p q) = {u @ v | u v. u \<in> words p \<and> v \<in> words q}"
| "words (Many p) = repeated (words p)"


section \<open>The spreadsheet behind the service\<close>

text \<open>
  The sheet is held by a remote service.  Its state is the list of the rows of \<open>Sheet1\<close>
  in columns A to E, the header row first, each row the list of its cells as
  \<open>spreadsheets.values.get\<close> reports them (trailing empty cells are left out, so a row may
  have fewer than five cells).  A call to the remote service may throw: \<open>faults\<close> is the
  script of the coming calls, \<open>Some m\<close> for a call that throws an error with message
  \<open>m\<close>, \<open>None\<close> for a call that goes through; when the script is used up every call
  goes through.  \<open>calls\<close> is the trace of the calls made so far.  The three calls the
  service makes through the client library are modelled by what they do to that list.
\<close>

type_synonym row = "jsstring list"

datatype range = Sheet1_A1_E1 | Sheet1_A2_E | Sheet1_A_E

datatype call =
    ValuesGet range
  | ValuesUpdate range "row list"
  | ValuesAppend range "row list"

record world =
  sheet :: "row list"
  faults :: "string option list"
  calls :: "call list"

datatype error = Error string

definition request :: "call \<Rightarrow> world \<Rightarrow> string option \<times> world" where
  "request c w =
     (case faults w of
        [] \<Rightarrow> (None, w\<lparr>calls := calls w @ [c]\<rparr>)
      | f # fs \<Rightarrow> (f, w\<lparr>faults := fs, calls := calls w @ [c]\<rparr>))"

text \<open>
  \<open>spreadsheets.values.get\<close>: the rows of the range; the field \<open>values\<close> of the answer is
  missing (\<open>None\<close>) when the range holds no data.
\<close>

definition rowsOf :: "range \<Rightarrow> row list \<Rightarrow> row list" where
  "rowsOf r rs =
     (case r of
        Sheet1_A1_E1 \<Rightarrow> filter (\<lambda>x. x \<noteq> []) (take 1 rs)
      | Sheet1_A2_E \<Rightarrow> drop 1 rs
      | Sheet1_A_E \<Rightarrow> rs)"

definition values_get :: "range \<Rightarrow> world \<Rightarrow> (error + row list option) \<times> world" where
  "values_get r w =
     (case request (ValuesGet r) w of
        (Some m, w') \<Rightarrow> (Inl (Error m), w')
      | (None, w') \<Rightarrow>
          (Inr (if rowsOf r (sheet w') = [] then None else Some (rowsOf r (sheet w'))), w'))"

text \<open>\<open>spreadsheets.values.update\<close> on \<open>Sheet1!A1:E1\<close>: the first row is overwritten.\<close>

definition values_update :: "row list \<Rightarrow> world \<Rightarrow> (error + unit) \<times> world" where
  "values_update rs w =
     (case request (ValuesUpdate Sheet1_A1_E1 rs) w of
        (Some m, w') \<Rightarrow> (Inl (Error m), w')
      | (None, w') \<Rightarrow> (Inr (), w'\<lparr>sheet := rs @ drop 1 (sheet w')\<rparr>))"

text \<open>\<open>spreadsheets.values.append\<close> on \<open>Sheet1!A:E\<close>: the rows are added below the last row.\<close>

definition values_append :: "row list \<Rightarrow> world \<Rightarrow> (error + unit) \<times> world" where
  "values_append rs w =
     (case request (ValuesAppend Sheet1_A_E rs) w of
        (Some m, w') \<Rightarrow> (Inl (Error m), w')
      | (None, w') \<Rightarrow> (Inr (), w'\<lparr>sheet := sheet w' @ rs\<rparr>))"

section \<open>GoogleSheetService\<close>

record student =
  name :: jsstring
  email :: jsstring
  phone :: jsstring
  school :: jsstring
  group :: jsstring

text \<open>
  A value held by, or read from, the object \<open>counts\<close>: a number, or a value that is not a
  number (a function, an object or a string).
\<close>

datatype jsvalue = Number nat | NotNumber

text \<open>The own properties of the object \<open>counts\<close>.\<close>

type_synonym GroupCount = "jsstring \<rightharpoonup> jsvalue"

text \<open>The header row written by \<open>initializeSheet\<close>, as code units.\<close>

definition headerRow :: row where
  "headerRow =
     [[72, 7885, 32, 118, 224, 32, 116, 234, 110],
      js ''Email'',
      [83, 7889, 32, 273, 105, 7879, 110, 32, 116, 104, 111, 7841, 105],
      [84, 114, 432, 7901, 110, 103, 32, 104, 7885, 99],
      [78, 104, 243, 109]]"

definition initializeSheet :: "world \<Rightarrow> (error + unit) \<times> world" where
  "initializeSheet w =
     (case values_get Sheet1_A1_E1 w of
        (Inl (Error m), w1) \<Rightarrow> (Inl (Error (''Failed to initialize Google Sheet: '' @ m)), w1)
      | (Inr values, w1) \<Rightarrow>
          (if values = None \<or> values = Some [] then
             (case values_update [headerRow] w1 of
                (Inl (Error m), w2) \<Rightarrow>
                  (Inl (Error (''Failed to initialize Google Sheet: '' @ m)), w2)
              | (Inr u, w2) \<Rightarrow> (Inr (), w2))
           else (Inr (), w1)))"

definition addStudent :: "student \<Rightarrow> world \<Rightarrow> (error + unit) \<times> world" where
  "addStudent s w =
     (case values_append [[name s, email s, phone s, school s, group s]] w of
        (Inl e, w') \<Rightarrow> (Inl (Error ''Failed to add student to Google Sheet''), w')
      | (Inr u, w') \<Rightarrow> (Inr (), w'))"

text \<open>\<open>row[i] || ''\<close>: a missing cell reads as the empty string.\<close>

definition cell :: "row \<Rightarrow> nat \<Rightarrow> jsstring" where
  "cell r i = (if i < length r then r ! i else [])"

definition rowToStudent :: "row \<Rightarrow> student" where
  "rowToStudent r =
     \<lparr>name = cell r 0, email = cell r 1, phone = cell r 2, school = cell r 3, group = cell r 4\<rparr>"

definition getAllStudents :: "world \<Rightarrow> (error + student list) \<times> world" where
  "getAllStudents w =
     (case values_get Sheet1_A2_E w of
        (Inl e, w') \<Rightarrow> (Inl (Error ''Failed to get students from Google Sheet''), w')
      | (Inr values, w') \<Rightarrow>
          (Inr (map rowToStudent (case values of None \<Rightarrow> [] | Some rows \<Rightarrow> rows)), w'))"

text \<open>
  \<open>counts\<close> is an object literal, so it inherits the properties of \<open>Object.prototype\<close>.
  These are their names; each of them is a function, or for \<open>__proto__\<close> an object.
\<close>

definition objectPrototype :: "jsstring list" where
  "objectPrototype =
     [js ''constructor'', js ''__defineGetter__'', js ''__defineSetter__'',
      js ''hasOwnProperty'', js ''__lookupGetter__'', js ''__lookupSetter__'',
      js ''isPrototypeOf'', js ''propertyIsEnumerable'', js ''toString'', js ''valueOf'',
      js ''__proto__'', js ''toLocaleString'']"

text \<open>\<open>counts[g]\<close>: the own property, else the inherited one, else \<open>undefined\<close>.\<close>

definition getProp :: "GroupCount \<Rightarrow> jsstring \<Rightarrow> jsvalue option" where
  "getProp counts g =
     (case counts g of
        Some v \<Rightarrow> Some v
      | None \<Rightarrow> if g \<in> set objectPrototype then Some NotNumber else None)"

text \<open>
  \<open>counts[g] = v\<close>, for a value that is a number or a string: an own property is written,
  except that the setter of \<open>__proto__\<close> ignores such a value.
\<close>

definition setProp :: "GroupCount \<Rightarrow> jsstring \<Rightarrow> jsvalue \<Rightarrow> GroupCount" where
  "setProp counts g v = (if g = js ''__proto__'' then counts else counts(g \<mapsto> v))"

text \<open>\<open>v || 0\<close>: \<open>undefined\<close> and 0 give 0, every other value is truthy.\<close>

definition orZero :: "jsvalue option \<Rightarrow> jsvalue" where
  "orZero v = (case v of None \<Rightarrow> Number 0 | Some x \<Rightarrow> x)"

text \<open>\<open>v + 1\<close>: a number is incremented; any other value is turned into a string.\<close>

definition plusOne :: "jsvalue \<Rightarrow> jsvalue" where
  "plusOne v = (case v of Number n \<Rightarrow> Number (n + 1) | NotNumber \<Rightarrow> NotNumber)"

text \<open>
  \<open>v >= m\<close> and \<open>v < m\<close> for a number \<open>m\<close>: a value that is not a number is converted to
  \<open>NaN\<close>, and every comparison with \<open>NaN\<close> is false.
\<close>

definition geNumber :: "jsvalue \<Rightarrow> int \<Rightarrow> bool" where
  "geNumber v m = (case v of Number n \<Rightarrow> m \<le> int n | NotNumber \<Rightarrow> False)"

definition ltNumber :: "jsvalue \<Rightarrow> int \<Rightarrow> bool" where
  "ltNumber v m = (case v of Number n \<Rightarrow> int n < m | NotNumber \<Rightarrow> False)"

text \<open>The body of the \<open>forEach\<close> of \<open>getGroupCounts\<close>.\<close>

definition countStudent :: "GroupCount \<Rightarrow> student \<Rightarrow> GroupCount" where
  "countStudent counts s =
     (if group s \<noteq> []
      then setProp counts (group s) (plusOne (orZero (getProp counts (group s))))
      else counts)"

text \<open>The whole \<open>forEach\<close>, from the empty object.\<close>

definition tally :: "student list \<Rightarrow> GroupCount" where
  "tally students = foldl countStudent Map.empty students"

definition getGroupCounts :: "world \<Rightarrow> (error + GroupCount) \<times> world" where
  "getGroupCounts w =
     (case getAllStudents w of
        (Inl e, w') \<Rightarrow> (Inl (Error ''Failed to get group counts''), w')
      | (Inr students, w') \<Rightarrow> (Inr (tally students), w'))"

definition getAvailableGroups ::
  "int \<Rightarrow> jsstring list \<Rightarrow> world \<Rightarrow> (error + jsstring list) \<times> world" where
  "getAvailableGroups maxStudentsPerGroup allGroups w =
     (case getGroupCounts w of
        (Inl e, w') \<Rightarrow> (Inl (Error ''Failed to get available groups''), w')
      | (Inr counts, w') \<Rightarrow>
          (Inr (filter (\<lambda>g. ltNumber (orZero (getProp counts g)) maxStudentsPerGroup) allGroups), w'))"

definition isGroupFull :: "int \<Rightarrow> jsstring \<Rightarrow> world \<Rightarrow> (error + bool) \<times> world" where
  "isGroupFull maxStudentsPerGroup groupName w =
     (case getGroupCounts w of
        (Inl e, w') \<Rightarrow> (Inl (Error ''Failed to check group status''), w')
      | (Inr counts, w') \<Rightarrow> (Inr (geNumber (orZero (getProp counts groupName)) maxStudentsPerGroup), w'))"

record duplicateCheck =
  isDuplicate :: bool
  field :: "string option"

text \<open>
  \<open>String.prototype.toLowerCase\<close> follows the case tables of the runtime; it is a
  parameter of \<open>checkDuplicate\<close>.
\<close>

definition checkDuplicate ::
  "(jsstring \<Rightarrow> jsstring) \<Rightarrow> jsstring \<Rightarrow> jsstring \<Rightarrow> world \<Rightarrow> (error + duplicateCheck) \<times> world" where
  "checkDuplicate toLowerCase em ph w =
     (case getAllStudents w of
        (Inl e, w') \<Rightarrow> (Inl (Error ''Failed to check for duplicate records''), w')
      | (Inr students, w') \<Rightarrow>
          (let normalizedPhone = stripSpacesDashes ph;
               emailExists = list_ex (\<lambda>s. toLowerCase (email s) = toLowerCase em) students
           in if emailExists then (Inr \<lparr>isDuplicate = True, field = Some ''email''\<rparr>, w')
              else
                let phoneExists =
                      list_ex (\<lambda>s. stripSpacesDashes (phone s) = normalizedPhone) students
                in if phoneExists then (Inr \<lparr>isDuplicate = True, field = Some ''phone''\<rparr>, w')
                   else (Inr \<lparr>isDuplicate = False, field = None\<rparr>, w')))"

section \<open>The server\<close>

text \<open>
  The environment of the process: the parsed group names, the parsed capacity (an integer;
  a value of \<open>MAX_STUDENTS_PER_GROUP\<close> that does not parse is outside the model), the
  reCAPTCHA keys, whether \<open>NODE_ENV\<close> is \<open>production\<close>; and the two services of the
  platform the handlers rely on: \<open>toLowerCase\<close> of strings and the remote \<open>siteverify\<close>
  call, which answers for a secret and a token whether the token is good (a failed or
  malformed answer counts as \<open>False\<close>).
\<close>

record env =
  GROUP_NAMES :: "jsstring list"
  MAX_STUDENTS_PER_GROUP :: int
  RECAPTCHA_SECRET_KEY :: "jsstring option"
  RECAPTCHA_SITE_KEY :: "jsstring option"
  production :: bool
  toLowerCase :: "jsstring \<Rightarrow> jsstring"
  siteverify :: "jsstring \<Rightarrow> jsstring \<Rightarrow> bool"

text \<open>
  The body of a registration request.  Every field is a string or is absent (\<open>None\<close>).
\<close>

record body =
  body_name :: "jsstring option"
  body_email :: "jsstring option"
  body_phone :: "jsstring option"
  body_school :: "jsstring option"
  body_group :: "jsstring option"
  body_recaptchaToken :: "jsstring option"

text \<open>\<open>!v\<close> for a string that may be absent: absent and the empty string are falsy.\<close>

definition falsy :: "jsstring option \<Rightarrow> bool" where
  "falsy v = (v = None \<or> v = Some [])"

definition str :: "jsstring option \<Rightarrow> jsstring" where
  "str v = (case v of None \<Rightarrow> [] | Some s \<Rightarrow> s)"

text \<open>
  An entry of the answer of \<open>GET /api/groups\<close>; its field \<open>name\<close> is written
  \<open>groupName\<close> here, \<open>name\<close> being a field of \<open>student\<close>.
\<close>

record groupStatus =
  groupName :: jsstring
  count :: jsvalue
  isFull :: bool
  maxStudents :: int

text \<open>
  A response: \<open>Reply status success message\<close> is the JSON \<open>{success, message}\<close> sent with
  the status; the other three are sent with status 200 and \<open>success: true\<close>.
\<close>

datatype response =
    Reply nat bool string
  | GroupsReply "groupStatus list"
  | StudentsReply "student list"
  | ConfigReply jsstring

definition verifyRecaptcha :: "env \<Rightarrow> jsstring \<Rightarrow> bool" where
  "verifyRecaptcha e token =
     (if falsy (RECAPTCHA_SECRET_KEY e) then False
      else siteverify e (str (RECAPTCHA_SECRET_KEY e)) token)"

definition configHandler :: "env \<Rightarrow> world \<Rightarrow> response \<times> world" where
  "configHandler e w = (ConfigReply (str (RECAPTCHA_SITE_KEY e)), w)"

definition groupsHandler :: "env \<Rightarrow> world \<Rightarrow> response \<times> world" where
  "groupsHandler e w =
     (case getGroupCounts w of
        (Inl err, w') \<Rightarrow> (Reply 500 False ''Failed to fetch group information'', w')
      | (Inr groupCounts, w') \<Rightarrow>
          (GroupsReply
             (map (\<lambda>g. \<lparr>groupName = g,
                        count = orZero (getProp groupCounts g),
                        isFull = geNumber (orZero (getProp groupCounts g)) (MAX_STUDENTS_PER_GROUP e),
                        maxStudents = MAX_STUDENTS_PER_GROUP e\<rparr>)
                (GROUP_NAMES e)), w'))"

definition studentsHandler :: "env \<Rightarrow> world \<Rightarrow> response \<times> world" where
  "studentsHandler e w =
     (case getAllStudents w of
        (Inl err, w') \<Rightarrow> (Reply 500 False ''Failed to fetch students'', w')
      | (Inr students, w') \<Rightarrow> (StudentsReply students, w'))"

definition duplicateMessage :: "string option \<Rightarrow> string" where
  "duplicateMessage f =
     (if f = Some ''email'' then ''Email'' else ''Phone number'')
       @ '' already exists. Please use a different '' @ (case f of None \<Rightarrow> ''undefined'' | Some x \<Rightarrow> x)
       @ ''.''"

definition register :: "env \<Rightarrow> body \<Rightarrow> world \<Rightarrow> response \<times> world" where
  "register e b w =
     (if falsy (body_name b) \<or> falsy (body_email b) \<or> falsy (body_phone b) \<or>
         falsy (body_school b) \<or> falsy (body_group b)
      then (Reply 400 False ''All fields are required'', w)
      else if falsy (body_recaptchaToken b)
      then (Reply 400 False ''reCAPTCHA verification is required'', w)
      else if \<not> verifyRecaptcha e (str (body_recaptchaToken b))
      then (Reply 400 False ''reCAPTCHA verification failed. Please try again.'', w)
      else if \<not> test emailRegex (str (body_email b))
      then (Reply 400 False ''Invalid email format'', w)
      else if \<not> test phoneRegex (stripSpacesDashes (str (body_phone b)))
      then (Reply 400 False ''Invalid phone number format'', w)
      else if str (body_group b) \<notin> set (GROUP_NAMES e)
      then (Reply 400 False ''Invalid group selection'', w)
      else
        (case checkDuplicate (toLowerCase e) (str (body_email b)) (str (body_phone b)) w of
           (Inl err, w1) \<Rightarrow> (Reply 500 False ''Failed to register student. Please try again.'', w1)
         | (Inr duplicateCheck, w1) \<Rightarrow>
             if isDuplicate duplicateCheck
             then (Reply 400 False (duplicateMessage (field duplicateCheck)), w1)
             else
               (case isGroupFull (MAX_STUDENTS_PER_GROUP e) (str (body_group b)) w1 of
                  (Inl err, w2) \<Rightarrow>
                    (Reply 500 False ''Failed to register student. Please try again.'', w2)
                | (Inr full, w2) \<Rightarrow>
                    if full
                    then (Reply 400 False
                            ''This group is already full. Please select another group.'', w2)
                    else
                      (case addStudent
                              \<lparr>name = str (body_name b), email = str (body_email b),
                               phone = str (body_phone b), school = str (body_school b),
                               group = str (body_group b)\<rparr> w2 of
                         (Inl err, w3) \<Rightarrow>
                           (Reply 500 False ''Failed to register student. Please try again.'', w3)
                       | (Inr u, w3) \<Rightarrow> (Reply 200 True ''Registration successful!'', w3)))))"

subsection \<open>Start of the process and the initialization gate\<close>

text \<open>
  \<open>initPromise\<close> is the promise of the asynchronous function that calls
  \<open>initializeSheet\<close> inside \<open>try\<close>/\<open>catch\<close>.  \<open>runInit\<close> is that function run to its end:
  when \<open>initializeSheet\<close> throws, the \<open>catch\<close> block logs the error and ends the process
  unless \<open>NODE_ENV\<close> is \<open>production\<close>; it does not throw again, so in production the
  function returns and its promise is fulfilled.
\<close>

datatype promise = Pending | Fulfilled | Rejected

record server =
  isSheetInitialized :: bool
  initPromise :: promise
  exited :: bool

definition boot :: server where
  "boot = \<lparr>isSheetInitialized = False, initPromise = Pending, exited = False\<rparr>"

definition runInit :: "env \<Rightarrow> world \<Rightarrow> server \<times> world" where
  "runInit e w =
     (case initializeSheet w of
        (Inr u, w') \<Rightarrow>
          (\<lparr>isSheetInitialized = True, initPromise = Fulfilled, exited = False\<rparr>, w')
      | (Inl err, w') \<Rightarrow>
          (if \<not> production e
           then (\<lparr>isSheetInitialized = False, initPromise = Pending, exited = True\<rparr>, w')
           else (\<lparr>isSheetInitialized = False, initPromise = Fulfilled, exited = False\<rparr>, w')))"

datatype req = GetConfig | GetGroups | GetStudents | PostRegister body

text \<open>
  What becomes of a request: it is answered, it waits for \<open>initPromise\<close> (\<open>Held\<close>), or
  there is no process left to answer it (\<open>Gone\<close>).
\<close>

datatype outcome = Responded response | Held | Gone

definition route :: "env \<Rightarrow> req \<Rightarrow> world \<Rightarrow> outcome \<times> world" where
  "route e r w =
     (case (case r of
              GetConfig \<Rightarrow> configHandler e w
            | GetGroups \<Rightarrow> groupsHandler e w
            | GetStudents \<Rightarrow> studentsHandler e w
            | PostRegister b \<Rightarrow> register e b w) of
        (res, w') \<Rightarrow> (Responded res, w'))"

text \<open>The middleware in front of the routes, followed by the route.\<close>

definition serve :: "env \<Rightarrow> server \<Rightarrow> req \<Rightarrow> world \<Rightarrow> outcome \<times> world" where
  "serve e s r w =
     (if exited s then (Gone, w)
      else if \<not> isSheetInitialized s then
        (case initPromise s of
           Pending \<Rightarrow> (Held, w)
         | Rejected \<Rightarrow>
             (Responded (Reply 503 False
                ''Service temporarily unavailable - Google Sheets initialization failed''), w)
         | Fulfilled \<Rightarrow> route e r w)
      else route e r w)"

section \<open>Notions used to state the properties\<close>

text \<open>The student records of a store state: one for every row below the header row.\<close>

definition roster :: "world \<Rightarrow> student list" where
  "roster w = map rowToStudent (drop 1 (sheet w))"

text \<open>The number of student records whose group equals \<open>g\<close>.\<close>

definition countInGroup :: "jsstring \<Rightarrow> student list \<Rightarrow> nat" where
  "countInGroup g students = length (filter (\<lambda>s. group s = g) students)"

text \<open>
  A record is counted under its group when the group is not empty and is not the name of a
  property that \<open>counts\<close> inherits.
\<close>

definition counted :: "student \<Rightarrow> bool" where
  "counted s = (group s \<noteq> [] \<and> group s \<notin> set objectPrototype)"

text \<open>The number an entry of the mapping holds; an entry that is not a number adds nothing.\<close>

definition numberOf :: "jsvalue option \<Rightarrow> nat" where
  "numberOf v = (case v of Some (Number n) \<Rightarrow> n | Some NotNumber \<Rightarrow> 0 | None \<Rightarrow> 0)"

text \<open>\<open>v + 1\<close> repeated \<open>k\<close> times.\<close>

definition plusMany :: "jsvalue \<Rightarrow> nat \<Rightarrow> jsvalue" where
  "plusMany v k = (case v of Number n \<Rightarrow> Number (n + k) | NotNumber \<Rightarrow> NotNumber)"

text \<open>The store without the rows below the header whose group cell is empty or missing.\<close>

definition withoutEmptyGroupRows :: "world \<Rightarrow> world" where
  "withoutEmptyGroupRows w =
     w\<lparr>sheet := take 1 (sheet w) @ filter (\<lambda>r. cell r 4 \<noteq> []) (drop 1 (sheet w))\<rparr>"

text \<open>The world after one more call has been recorded in the trace.\<close>

definition afterCall :: "call \<Rightarrow> world \<Rightarrow> world" where
  "afterCall c w = w\<lparr>calls := calls w @ [c]\<rparr>"

text \<open>
  Equality of emails under case-insensitive comparison, equality of phones after the
  white space and the dashes are stripped from both, and whether some record of a list has
  the email, or the phone, of a candidate in that sense.
\<close>

definition sameEmail :: "(jsstring \<Rightarrow> jsstring) \<Rightarrow> jsstring \<Rightarrow> jsstring \<Rightarrow> bool" where
  "sameEmail lower a b = (lower a = lower b)"

definition samePhone :: "jsstring \<Rightarrow> jsstring \<Rightarrow> bool" where
  "samePhone a b = (stripSpacesDashes a = stripSpacesDashes b)"

definition emailTaken :: "(jsstring \<Rightarrow> jsstring) \<Rightarrow> student list \<Rightarrow> jsstring \<Rightarrow> bool" where
  "emailTaken lower students em = (\<exists>s \<in> set students. sameEmail lower (email s) em)"

definition phoneTaken :: "student list \<Rightarrow> jsstring \<Rightarrow> bool" where
  "phoneTaken students ph = (\<exists>s \<in> set students. samePhone (phone s) ph)"

text \<open>
  The shape \<open>local@domain.tld\<close> of an email: a local part, \<open>@\<close>, and a domain with a dot
  inside it.  The local part and the parts of the domain before and after that dot are not
  empty and hold neither white space nor \<open>@\<close>; the parts of the domain may hold more dots.
\<close>

definition emailShape :: "jsstring \<Rightarrow> bool" where
  "emailShape e =
     (\<exists>l d t. e = l @ [64] @ d @ [46] @ t \<and> l \<noteq> [] \<and> d \<noteq> [] \<and> t \<noteq> [] \<and>
        list_all notSpaceAt l \<and> list_all notSpaceAt d \<and> list_all notSpaceAt t)"

text \<open>A string of digits of length 10 or 11.\<close>

definition tenOrElevenDigits :: "jsstring \<Rightarrow> bool" where
  "tenOrElevenDigits s = (list_all isDigit s \<and> (length s = 10 \<or> length s = 11))"

text \<open>
  The checks of the registration handler run in a fixed order and the first that fails
  answers the request.  A submission reaches a check when every check before it has
  passed: the required fields are there, the token is there and verified, and so on.
\<close>

definition fieldsPresent :: "body \<Rightarrow> bool" where
  "fieldsPresent b =
     (\<not> falsy (body_name b) \<and> \<not> falsy (body_email b) \<and> \<not> falsy (body_phone b) \<and>
      \<not> falsy (body_school b) \<and> \<not> falsy (body_group b))"

definition reachesEmailCheck :: "env \<Rightarrow> body \<Rightarrow> bool" where
  "reachesEmailCheck e b =
     (fieldsPresent b \<and> \<not> falsy (body_recaptchaToken b) \<and>
      verifyRecaptcha e (str (body_recaptchaToken b)))"

definition reachesPhoneCheck :: "env \<Rightarrow> body \<Rightarrow> bool" where
  "reachesPhoneCheck e b = (reachesEmailCheck e b \<and> test emailRegex (str (body_email b)))"

definition reachesGroupCheck :: "env \<Rightarrow> body \<Rightarrow> bool" where
  "reachesGroupCheck e b =
     (reachesPhoneCheck e b \<and> test phoneRegex (stripSpacesDashes (str (body_phone b))))"

definition reachesDuplicateCheck :: "env \<Rightarrow> body \<Rightarrow> bool" where
  "reachesDuplicateCheck e b =
     (reachesGroupCheck e b \<and> str (body_group b) \<in> set (GROUP_NAMES e))"

definition reachesCapacityCheck :: "env \<Rightarrow> body \<Rightarrow> world \<Rightarrow> bool" where
  "reachesCapacityCheck e b w =
     (reachesDuplicateCheck e b \<and>
      \<not> emailTaken (toLowerCase e) (roster w) (str (body_email b)) \<and>
      \<not> phoneTaken (roster w) (str (body_phone b)))"

text \<open>The row a successful registration appends.\<close>

definition rowOfBody :: "body \<Rightarrow> row" where
  "rowOfBody b =
     [str (body_name b), str (body_email b), str (body_phone b), str (body_school b),
      str (body_group b)]"

text \<open>The messages of the handler.\<close>

definition missingFields :: response where
  "missingFields = Reply 400 False ''All fields are required''"

definition tokenRequired :: response where
  "tokenRequired = Reply 400 False ''reCAPTCHA verification is required''"

definition tokenRejected :: response where
  "tokenRejected = Reply 400 False ''reCAPTCHA verification failed. Please try again.''"

definition invalidEmail :: response where
  "invalidEmail = Reply 400 False ''Invalid email format''"

definition invalidPhone :: response where
  "invalidPhone = Reply 400 False ''Invalid phone number format''"

definition invalidGroup :: response where
  "invalidGroup = Reply 400 False ''Invalid group selection''"

definition internalFailure :: response where
  "internalFailure = Reply 500 False ''Failed to register student. Please try again.''"

definition duplicateEmail :: response where
  "duplicateEmail = Reply 400 False ''Email already exists. Please use a different email.''"

definition duplicatePhone :: response where
  "duplicatePhone =
     Reply 400 False ''Phone number already exists. Please use a different phone.''"

definition groupFull :: response where
  "groupFull = Reply 400 False ''This group is already full. Please select another group.''"

definition registered :: response where
  "registered = Reply 200 True ''Registration successful!''"

definition unavailable :: response where
  "unavailable =
     Reply 503 False ''Service temporarily unavailable - Google Sheets initialization failed''"

subsection \<open>Concrete inputs\<close>

text \<open>Lower case of the letters A to Z, as \<open>toLowerCase\<close> acts on ASCII strings.\<close>

definition asciiLower :: "jsstring \<Rightarrow> jsstring" where
  "asciiLower s = map (\<lambda>c. if 65 \<le> c \<and> c \<le> 90 then c + 32 else c) s"

definition demoEnv :: "jsstring list \<Rightarrow> int \<Rightarrow> env" where
  "demoEnv names cap =
     \<lparr>GROUP_NAMES = names, MAX_STUDENTS_PER_GROUP = cap,
      RECAPTCHA_SECRET_KEY = Some (js ''secret''), RECAPTCHA_SITE_KEY = Some (js ''site''),
      production = True, toLowerCase = asciiLower, siteverify = (\<lambda>secret token. True)\<rparr>"

definition demoBody :: "string \<Rightarrow> string \<Rightarrow> string \<Rightarrow> body" where
  "demoBody em ph g =
     \<lparr>body_name = Some (js ''An''), body_email = Some (js em), body_phone = Some (js ph),
      body_school = Some (js ''THPT''), body_group = Some (js g),
      body_recaptchaToken = Some (js ''token'')\<rparr>"

definition demoRow :: "string \<Rightarrow> string \<Rightarrow> string \<Rightarrow> row" where
  "demoRow em ph g = [js ''Binh'', js em, js ph, js ''THCS'', js g]"

definition demoWorld :: "row list \<Rightarrow> world" where
  "demoWorld rows = \<lparr>sheet = headerRow # rows, faults = [], calls = []\<rparr>"

section \<open>The matcher decides the words of a pattern\<close>

lemma acceptsEmpty_words: "acceptsEmpty p \<longleftrightarrow> [] \<in> words p"
  by (induction p) (auto intro: repeated.none)

lemma repeated_cons:
  "x \<in> repeated L \<Longrightarrow> x = c # w \<Longrightarrow> \<exists>u v. w = u @ v \<and> c # u \<in> L \<and> v \<in> repeated L"
proof (induction arbitrary: w rule: repeated.induct)
  case none
  then show ?case by simp
next
  case (more u v)
  show ?case
  proof (cases u)
    case Nil
    with more show ?thesis by simp
  next
    case (Cons a u')
    with more.prems have "a = c" and "w = u' @ v" by simp_all
    with more.hyps Cons show ?thesis by blast
  qed
qed

lemma repeated_cons_iff:
  "c # w \<in> repeated L \<longleftrightarrow> (\<exists>u v. w = u @ v \<and> c # u \<in> L \<and> v \<in> repeated L)"
proof
  assume "c # w \<in> repeated L"
  then show "\<exists>u v. w = u @ v \<and> c # u \<in> L \<and> v \<in> repeated L"
    by (rule repeated_cons) simp
next
  assume "\<exists>u v. w = u @ v \<and> c # u \<in> L \<and> v \<in> repeated L"
  then obtain u v where "w = u @ v" "c # u \<in> L" "v \<in> repeated L" by blast
  then show "c # w \<in> repeated L"
    using repeated.more [of "c # u" L v] by simp
qed

lemma words_after: "words (after c p) = {w. c # w \<in> words p}"
proof (induction p)
  case (Then p q)
  have split: "\<And>w. (\<exists>u v. c # w = u @ v \<and> u \<in> words p \<and> v \<in> words q) \<longleftrightarrow>
      ([] \<in> words p \<and> c # w \<in> words q) \<or>
      (\<exists>u v. w = u @ v \<and> c # u \<in> words p \<and> v \<in> words q)"
    by (auto simp: Cons_eq_append_conv)
  show ?case
    using Then by (auto simp: acceptsEmpty_words split)
next
  case (Many p)
  then show ?case by (auto simp: repeated_cons_iff)
qed auto

lemma test_words: "test p s \<longleftrightarrow> s \<in> words p"
  by (induction s arbitrary: p) (simp_all add: acceptsEmpty_words words_after)

lemma repeated_class: "s \<in> repeated {[c] | c. P c} \<longleftrightarrow> list_all P s"
proof
  assume "s \<in> repeated {[c] | c. P c}"
  then show "list_all P s" by (induction rule: repeated.induct) auto
next
  assume "list_all P s"
  then show "s \<in> repeated {[c] | c. P c}"
  proof (induction s)
    case Nil
    show ?case by (rule repeated.none)
  next
    case (Cons a s)
    then have "[a] \<in> {[c] | c. P c}" and "s \<in> repeated {[c] | c. P c}" by simp_all
    then have "[a] @ s \<in> repeated {[c] | c. P c}" by (rule repeated.more)
    then show ?case by simp
  qed
qed

lemma in_words_Then:
  "s \<in> words (Then p q) \<longleftrightarrow> (\<exists>u v. s = u @ v \<and> u \<in> words p \<and> v \<in> words q)"
  by auto

lemma in_words_class_Then:
  "s \<in> words (Then (OneOf P) q) \<longleftrightarrow> (\<exists>c v. s = c # v \<and> P c \<and> v \<in> words q)"
proof
  assume "s \<in> words (Then (OneOf P) q)"
  then obtain u v where "s = u @ v" "u \<in> words (OneOf P)" "v \<in> words q"
    unfolding in_words_Then by blast
  then show "\<exists>c v. s = c # v \<and> P c \<and> v \<in> words q" by auto
next
  assume "\<exists>c v. s = c # v \<and> P c \<and> v \<in> words q"
  then obtain c v where "s = [c] @ v" "[c] \<in> words (OneOf P)" "v \<in> words q" by auto
  then show "s \<in> words (Then (OneOf P) q)" unfolding in_words_Then by blast
qed

lemma words_oneOrMore_class:
  "s \<in> words (oneOrMore (OneOf P)) \<longleftrightarrow> s \<noteq> [] \<and> list_all P s"
  unfolding oneOrMore_def in_words_class_Then
  by (cases s) (auto simp: repeated_class)

lemma words_exactly_class:
  "s \<in> words (exactly n (OneOf P)) \<longleftrightarrow> length s = n \<and> list_all P s"
proof (induction n arbitrary: s)
  case 0
  then show ?case by auto
next
  case (Suc n)
  have "s \<in> words (exactly (Suc n) (OneOf P)) \<longleftrightarrow>
        (\<exists>c v. s = c # v \<and> P c \<and> length v = n \<and> list_all P v)"
    unfolding exactly.simps in_words_class_Then Suc ..
  then show ?case by (cases s) auto
qed

lemma test_phoneRegex:
  "test phoneRegex s \<longleftrightarrow> list_all isDigit s \<and> (length s = 10 \<or> length s = 11)"
proof -
  have opt: "\<And>v. v \<in> words (optional (OneOf isDigit)) \<longleftrightarrow> v = [] \<or> (\<exists>c. v = [c] \<and> isDigit c)"
    by (auto simp: optional_def)
  have "s \<in> words phoneRegex \<longleftrightarrow>
      (\<exists>u v. s = u @ v \<and> length u = 10 \<and> list_all isDigit u \<and> (v = [] \<or> (\<exists>c. v = [c] \<and> isDigit c)))"
    unfolding phoneRegex_def in_words_Then words_exactly_class opt by blast
  also have "\<dots> \<longleftrightarrow> list_all isDigit s \<and> (length s = 10 \<or> length s = 11)"
  proof
    assume "\<exists>u v. s = u @ v \<and> length u = 10 \<and> list_all isDigit u \<and> (v = [] \<or> (\<exists>c. v = [c] \<and> isDigit c))"
    then show "list_all isDigit s \<and> (length s = 10 \<or> length s = 11)" by auto
  next
    assume a: "list_all isDigit s \<and> (length s = 10 \<or> length s = 11)"
    let ?u = "take 10 s" and ?v = "drop 10 s"
    have "s = ?u @ ?v" by simp
    moreover have "length ?u = 10" using a by auto
    moreover have "list_all isDigit ?u" "list_all isDigit ?v"
      using a by (auto simp: list_all_iff dest: in_set_takeD in_set_dropD)
    moreover have "?v = [] \<or> (\<exists>c. ?v = [c])"
    proof -
      have "length ?v = 0 \<or> length ?v = Suc 0" using a by auto
      then show ?thesis
        unfolding length_0_conv length_Suc_conv by blast
    qed
    ultimately have "s = ?u @ ?v \<and> length ?u = 10 \<and> list_all isDigit ?u \<and>
        (?v = [] \<or> (\<exists>c. ?v = [c] \<and> isDigit c))"
      by auto
    then show "\<exists>u v. s = u @ v \<and> length u = 10 \<and> list_all isDigit u \<and> (v = [] \<or> (\<exists>c. v = [c] \<and> isDigit c))"
      by blast
  qed
  finally show ?thesis by (simp add: test_words)
qed

lemma test_emailRegex: "test emailRegex s \<longleftrightarrow> emailShape s"
proof -
  have tl: "\<And>v. v \<in> words (Then (OneOf (\<lambda>c. c = 46)) (oneOrMore (OneOf notSpaceAt))) \<longleftrightarrow>
      (\<exists>t. v = [46] @ t \<and> t \<noteq> [] \<and> list_all notSpaceAt t)"
    unfolding in_words_class_Then words_oneOrMore_class by auto
  have dm: "\<And>v. v \<in> words (Then (oneOrMore (OneOf notSpaceAt))
        (Then (OneOf (\<lambda>c. c = 46)) (oneOrMore (OneOf notSpaceAt)))) \<longleftrightarrow>
      (\<exists>d t. v = d @ [46] @ t \<and> d \<noteq> [] \<and> t \<noteq> [] \<and> list_all notSpaceAt d \<and> list_all notSpaceAt t)"
    unfolding in_words_Then [of _ "oneOrMore (OneOf notSpaceAt)"] tl words_oneOrMore_class by blast
  have at: "\<And>v. v \<in> words (Then (OneOf (\<lambda>c. c = 64)) (Then (oneOrMore (OneOf notSpaceAt))
        (Then (OneOf (\<lambda>c. c = 46)) (oneOrMore (OneOf notSpaceAt))))) \<longleftrightarrow>
      (\<exists>d t. v = [64] @ d @ [46] @ t \<and> d \<noteq> [] \<and> t \<noteq> [] \<and> list_all notSpaceAt d \<and> list_all notSpaceAt t)"
    unfolding in_words_class_Then dm by auto
  show ?thesis
    unfolding test_words emailRegex_def emailShape_def
      in_words_Then [of _ "oneOrMore (OneOf notSpaceAt)"] at words_oneOrMore_class
    by blast
qed


section \<open>The service when every call to the sheet goes through\<close>

lemma sheet_afterCall [simp]: "sheet (afterCall c w) = sheet w"
  and faults_afterCall [simp]: "faults (afterCall c w) = faults w"
  and calls_afterCall [simp]: "calls (afterCall c w) = calls w @ [c]"
  and roster_afterCall [simp]: "roster (afterCall c w) = roster w"
  by (simp_all add: afterCall_def roster_def)

lemma request_ok: "faults w = [] \<Longrightarrow> request c w = (None, afterCall c w)"
  by (simp add: request_def afterCall_def)

lemma getAllStudents_ok:
  "faults w = [] \<Longrightarrow> getAllStudents w = (Inr (roster w), afterCall (ValuesGet Sheet1_A2_E) w)"
  by (simp add: getAllStudents_def values_get_def request_ok rowsOf_def roster_def)

lemma prototype_names:
  "[] \<notin> set objectPrototype" "js ''__proto__'' \<in> set objectPrototype"
  by (simp_all add: objectPrototype_def js_def)

lemma plusMany_add: "plusMany (plusMany v j) k = plusMany v (j + k)"
  by (cases v) (simp_all add: plusMany_def)

lemma plusOne_plusMany: "plusOne v = plusMany v (Suc 0)"
  by (cases v) (simp_all add: plusMany_def plusOne_def)

lemma countStudent_at:
  "countStudent m x g =
     (if group x = g \<and> g \<noteq> [] \<and> g \<noteq> js ''__proto__''
      then Some (plusOne (orZero (getProp m g))) else m g)"
  by (simp add: countStudent_def setProp_def)

lemma getProp_countStudent:
  "group x = g \<Longrightarrow> g \<noteq> [] \<Longrightarrow> g \<noteq> js ''__proto__'' \<Longrightarrow>
     orZero (getProp (countStudent m x) g) = plusOne (orZero (getProp m g))"
  "group x \<noteq> g \<Longrightarrow> getProp (countStudent m x) g = getProp m g"
  by (simp_all add: getProp_def countStudent_at orZero_def)

lemma countStudent_fold:
  "foldl countStudent m xs g =
     (if g = [] \<or> g = js ''__proto__'' \<or> countInGroup g xs = 0 then m g
      else Some (plusMany (orZero (getProp m g)) (countInGroup g xs)))"
proof (induction xs arbitrary: m)
  case Nil
  show ?case by (simp add: countInGroup_def)
next
  case (Cons x xs)
  show ?case
  proof (cases "group x = g \<and> g \<noteq> [] \<and> g \<noteq> js ''__proto__''")
    case True
    then have "orZero (getProp (countStudent m x) g) = plusOne (orZero (getProp m g))"
      by (simp add: getProp_countStudent)
    with True show ?thesis
      unfolding foldl_Cons Cons.IH
      by (simp add: countStudent_at countInGroup_def plusOne_plusMany plusMany_add)
  next
    case False
    then have "countStudent m x g = m g" by (auto simp: countStudent_at)
    moreover have "g \<noteq> [] \<and> g \<noteq> js ''__proto__'' \<longrightarrow> getProp (countStudent m x) g = getProp m g"
      using False by (auto simp: getProp_countStudent)
    moreover have "g \<noteq> [] \<and> g \<noteq> js ''__proto__'' \<longrightarrow> countInGroup g (x # xs) = countInGroup g xs"
      using False by (auto simp: countInGroup_def)
    ultimately show ?thesis
      unfolding foldl_Cons Cons.IH by auto
  qed
qed

lemma tally_eq:
  "tally xs g =
     (if g = [] \<or> g = js ''__proto__'' \<or> countInGroup g xs = 0 then None
      else if g \<in> set objectPrototype then Some NotNumber
      else Some (Number (countInGroup g xs)))"
  by (simp add: tally_def countStudent_fold orZero_def getProp_def plusMany_def)

lemma read_tally:
  "orZero (getProp (tally xs) g) =
     (if g \<in> set objectPrototype then NotNumber
      else Number (if g = [] then 0 else countInGroup g xs))"
  using prototype_names by (auto simp: tally_eq orZero_def getProp_def)

lemma getGroupCounts_ok:
  "faults w = [] \<Longrightarrow>
     getGroupCounts w =
       (Inr (tally (roster w)), afterCall (ValuesGet Sheet1_A2_E) w)"
  by (simp add: getGroupCounts_def getAllStudents_ok)

lemma isGroupFull_ok:
  "faults w = [] \<Longrightarrow>
     isGroupFull cap g w =
       (Inr (g \<notin> set objectPrototype \<and>
             cap \<le> int (if g = [] then 0 else countInGroup g (roster w))),
        afterCall (ValuesGet Sheet1_A2_E) w)"
  by (simp add: isGroupFull_def getGroupCounts_ok read_tally geNumber_def)

lemma checkDuplicate_ok:
  "faults w = [] \<Longrightarrow>
     checkDuplicate lower em ph w =
       (Inr (if emailTaken lower (roster w) em then \<lparr>isDuplicate = True, field = Some ''email''\<rparr>
             else if phoneTaken (roster w) ph then \<lparr>isDuplicate = True, field = Some ''phone''\<rparr>
             else \<lparr>isDuplicate = False, field = None\<rparr>),
        afterCall (ValuesGet Sheet1_A2_E) w)"
  by (simp add: checkDuplicate_def getAllStudents_ok emailTaken_def phoneTaken_def
      sameEmail_def samePhone_def list_ex_iff Let_def)

lemma addStudent_ok:
  "faults w = [] \<Longrightarrow>
     addStudent s w =
       (Inr (), (afterCall (ValuesAppend Sheet1_A_E [[name s, email s, phone s, school s, group s]]) w)
                 \<lparr>sheet := sheet w @ [[name s, email s, phone s, school s, group s]]\<rparr>)"
  by (simp add: addStudent_def values_append_def request_ok)


lemma duplicateMessage_email:
  "Reply 400 False (duplicateMessage (Some ''email'')) = duplicateEmail"
  by (simp add: duplicateMessage_def duplicateEmail_def)

lemma duplicateMessage_phone:
  "Reply 400 False (duplicateMessage (Some ''phone'')) = duplicatePhone"
  by (simp add: duplicateMessage_def duplicatePhone_def)

lemma register_missing: "\<not> fieldsPresent b \<Longrightarrow> register e b w = (missingFields, w)"
  by (auto simp: register_def fieldsPresent_def missingFields_def)

lemma register_email:
  "reachesEmailCheck e b \<Longrightarrow> \<not> test emailRegex (str (body_email b)) \<Longrightarrow>
     register e b w = (invalidEmail, w)"
  by (simp add: register_def reachesEmailCheck_def fieldsPresent_def invalidEmail_def)

lemma register_phone:
  "reachesPhoneCheck e b \<Longrightarrow> \<not> test phoneRegex (stripSpacesDashes (str (body_phone b))) \<Longrightarrow>
     register e b w = (invalidPhone, w)"
  by (simp add: register_def reachesPhoneCheck_def reachesEmailCheck_def fieldsPresent_def
      invalidPhone_def)

lemma register_store:
  assumes "reachesDuplicateCheck e b" and "faults w = []"
  shows "register e b w =
    (if emailTaken (toLowerCase e) (roster w) (str (body_email b))
     then (duplicateEmail, afterCall (ValuesGet Sheet1_A2_E) w)
     else if phoneTaken (roster w) (str (body_phone b))
     then (duplicatePhone, afterCall (ValuesGet Sheet1_A2_E) w)
     else if str (body_group b) \<notin> set objectPrototype \<and>
             MAX_STUDENTS_PER_GROUP e \<le> int (countInGroup (str (body_group b)) (roster w))
     then (groupFull, afterCall (ValuesGet Sheet1_A2_E) (afterCall (ValuesGet Sheet1_A2_E) w))
     else (registered,
           (afterCall (ValuesAppend Sheet1_A_E [rowOfBody b])
              (afterCall (ValuesGet Sheet1_A2_E) (afterCall (ValuesGet Sheet1_A2_E) w)))
           \<lparr>sheet := sheet w @ [rowOfBody b]\<rparr>))"
proof -
  from assms(1) have g: "str (body_group b) \<noteq> []"
    by (auto simp: reachesDuplicateCheck_def reachesGroupCheck_def reachesPhoneCheck_def
        reachesEmailCheck_def fieldsPresent_def falsy_def str_def split: option.splits)
  from assms(1) have pre: "\<not> falsy (body_name b)" "\<not> falsy (body_email b)"
      "\<not> falsy (body_phone b)" "\<not> falsy (body_school b)" "\<not> falsy (body_group b)"
      "\<not> falsy (body_recaptchaToken b)" "verifyRecaptcha e (str (body_recaptchaToken b))"
      "test emailRegex (str (body_email b))"
      "test phoneRegex (stripSpacesDashes (str (body_phone b)))"
      "str (body_group b) \<in> set (GROUP_NAMES e)"
    by (simp_all add: reachesDuplicateCheck_def reachesGroupCheck_def reachesPhoneCheck_def
        reachesEmailCheck_def fieldsPresent_def)
  show ?thesis
    unfolding register_def
    using pre g assms(2)
    by (simp add: checkDuplicate_ok isGroupFull_ok addStudent_ok duplicateMessage_email
        duplicateMessage_phone groupFull_def registered_def rowOfBody_def)
qed

section \<open>The order of the checks of the registration handler\<close>

lemma register_early:
  "\<not> reachesDuplicateCheck e b \<Longrightarrow>
     register e b w =
       (if \<not> fieldsPresent b then missingFields
        else if falsy (body_recaptchaToken b) then tokenRequired
        else if \<not> verifyRecaptcha e (str (body_recaptchaToken b)) then tokenRejected
        else if \<not> test emailRegex (str (body_email b)) then invalidEmail
        else if \<not> test phoneRegex (stripSpacesDashes (str (body_phone b))) then invalidPhone
        else invalidGroup, w)"
  by (auto simp: register_def reachesDuplicateCheck_def reachesGroupCheck_def
      reachesPhoneCheck_def reachesEmailCheck_def fieldsPresent_def missingFields_def
      tokenRequired_def tokenRejected_def invalidEmail_def invalidPhone_def invalidGroup_def)

lemma register_late:
  "reachesDuplicateCheck e b \<Longrightarrow>
     fst (register e b w) = internalFailure \<or> fst (register e b w) = duplicateEmail \<or>
     fst (register e b w) = duplicatePhone \<or> fst (register e b w) = groupFull \<or>
     fst (register e b w) = registered"
  unfolding register_def reachesDuplicateCheck_def reachesGroupCheck_def
      reachesPhoneCheck_def reachesEmailCheck_def fieldsPresent_def
  by (auto simp: checkDuplicate_def Let_def duplicateMessage_email duplicateMessage_phone
      internalFailure_def groupFull_def registered_def
      split: prod.splits sum.splits if_splits)

lemma replies_distinct:
  "duplicateEmail \<noteq> duplicatePhone" "duplicateEmail \<noteq> groupFull" "duplicateEmail \<noteq> registered"
  "duplicatePhone \<noteq> groupFull" "duplicatePhone \<noteq> registered" "groupFull \<noteq> registered"
  "duplicateEmail \<noteq> missingFields" "duplicateEmail \<noteq> tokenRequired"
  "duplicateEmail \<noteq> tokenRejected" "duplicateEmail \<noteq> invalidEmail"
  "duplicateEmail \<noteq> invalidPhone" "duplicateEmail \<noteq> invalidGroup"
  "duplicatePhone \<noteq> missingFields" "duplicatePhone \<noteq> tokenRequired"
  "duplicatePhone \<noteq> tokenRejected" "duplicatePhone \<noteq> invalidEmail"
  "duplicatePhone \<noteq> invalidPhone" "duplicatePhone \<noteq> invalidGroup"
  by (simp_all add: duplicateEmail_def duplicatePhone_def groupFull_def registered_def
      missingFields_def tokenRequired_def tokenRejected_def invalidEmail_def invalidPhone_def
      invalidGroup_def)

lemma register_invalidEmail:
  "fst (register e b w) = invalidEmail \<Longrightarrow>
     reachesEmailCheck e b \<and> \<not> test emailRegex (str (body_email b))"
proof (cases "reachesDuplicateCheck e b")
  case True
  assume "fst (register e b w) = invalidEmail"
  with register_late [OF True, of w] show ?thesis
    by (auto simp: invalidEmail_def internalFailure_def duplicateEmail_def duplicatePhone_def
        groupFull_def registered_def)
next
  case False
  assume "fst (register e b w) = invalidEmail"
  then show ?thesis
    unfolding register_early [OF False]
    by (auto simp: invalidPhone_def missingFields_def tokenRequired_def tokenRejected_def
        invalidEmail_def invalidGroup_def reachesEmailCheck_def
        split: if_splits)
qed

lemma register_invalidPhone:
  "fst (register e b w) = invalidPhone \<Longrightarrow>
     reachesPhoneCheck e b \<and> \<not> test phoneRegex (stripSpacesDashes (str (body_phone b)))"
proof (cases "reachesDuplicateCheck e b")
  case True
  assume "fst (register e b w) = invalidPhone"
  with register_late [OF True, of w] show ?thesis
    by (auto simp: invalidPhone_def internalFailure_def duplicateEmail_def duplicatePhone_def
        groupFull_def registered_def)
next
  case False
  assume "fst (register e b w) = invalidPhone"
  then show ?thesis
    unfolding register_early [OF False]
    by (auto simp: invalidPhone_def missingFields_def tokenRequired_def tokenRejected_def
        invalidEmail_def invalidGroup_def reachesPhoneCheck_def reachesEmailCheck_def
        split: if_splits)
qed

lemma register_duplicate:
  assumes "faults w = []"
  shows "fst (register e b w) = duplicateEmail \<longleftrightarrow>
           reachesDuplicateCheck e b \<and> emailTaken (toLowerCase e) (roster w) (str (body_email b))"
    and "fst (register e b w) = duplicatePhone \<longleftrightarrow>
           reachesDuplicateCheck e b \<and> \<not> emailTaken (toLowerCase e) (roster w) (str (body_email b)) \<and>
           phoneTaken (roster w) (str (body_phone b))"
    and "fst (register e b w) = duplicateEmail \<or> fst (register e b w) = duplicatePhone \<Longrightarrow>
           sheet (snd (register e b w)) = sheet w"
proof -
  show "fst (register e b w) = duplicateEmail \<longleftrightarrow>
           reachesDuplicateCheck e b \<and> emailTaken (toLowerCase e) (roster w) (str (body_email b))"
  proof (cases "reachesDuplicateCheck e b")
    case True
    show ?thesis unfolding register_store [OF True assms] using True
      by (simp add: replies_distinct replies_distinct [symmetric])
  next
    case False
    show ?thesis unfolding register_early [OF False] using False
      by (simp add: replies_distinct replies_distinct [symmetric])
  qed
  show "fst (register e b w) = duplicatePhone \<longleftrightarrow>
           reachesDuplicateCheck e b \<and> \<not> emailTaken (toLowerCase e) (roster w) (str (body_email b)) \<and>
           phoneTaken (roster w) (str (body_phone b))"
  proof (cases "reachesDuplicateCheck e b")
    case True
    show ?thesis unfolding register_store [OF True assms] using True
      by (simp add: replies_distinct replies_distinct [symmetric])
  next
    case False
    show ?thesis unfolding register_early [OF False] using False
      by (simp add: replies_distinct replies_distinct [symmetric])
  qed
  show "fst (register e b w) = duplicateEmail \<or> fst (register e b w) = duplicatePhone \<Longrightarrow>
           sheet (snd (register e b w)) = sheet w"
  proof (cases "reachesDuplicateCheck e b")
    case True
    assume "fst (register e b w) = duplicateEmail \<or> fst (register e b w) = duplicatePhone"
    then show ?thesis unfolding register_store [OF True assms]
      by (simp add: replies_distinct replies_distinct [symmetric] split: if_splits)
  next
    case False
    show ?thesis unfolding register_early [OF False] by simp
  qed
qed

section \<open>The email shape and white space\<close>

lemma at_dot_not_space: "\<not> isWhiteSpace 64" "\<not> isWhiteSpace 46"
  by (simp_all add: isWhiteSpace_def)

lemma notSpaceAt_no_space: "list_all notSpaceAt s \<Longrightarrow> \<not> list_ex isWhiteSpace s"
  by (induction s) (simp_all add: notSpaceAt_def)

lemma emailShape_no_space: "emailShape e \<Longrightarrow> \<not> list_ex isWhiteSpace e"
proof -
  assume "emailShape e"
  then obtain l d t where e: "e = l @ [64] @ d @ [46] @ t"
    and ok: "list_all notSpaceAt l" "list_all notSpaceAt d" "list_all notSpaceAt t"
    unfolding emailShape_def by blast
  show ?thesis
    unfolding e using ok [THEN notSpaceAt_no_space] at_dot_not_space by simp
qed

lemma emailShape_parts:
  "emailShape e \<Longrightarrow>
     (\<exists>l d. e = l @ [64] @ d \<and> l \<noteq> [] \<and> 46 \<in> set d) \<and> \<not> list_ex isWhiteSpace e"
proof -
  assume shape: "emailShape e"
  then obtain l d t where "e = l @ [64] @ (d @ [46] @ t)" "l \<noteq> []" "46 \<in> set (d @ [46] @ t)"
    unfolding emailShape_def by auto
  then have "\<exists>l d. e = l @ [64] @ d \<and> l \<noteq> [] \<and> 46 \<in> set d" by blast
  with emailShape_no_space [OF shape] show ?thesis by blast
qed

lemma not_emailShape:
  "64 \<notin> set e \<Longrightarrow> \<not> emailShape e"
  "46 \<notin> set e \<Longrightarrow> \<not> emailShape e"
  "list_ex isWhiteSpace e \<Longrightarrow> \<not> emailShape e"
  using emailShape_no_space [of e] by (auto simp: emailShape_def)

section \<open>Appending a row and counting the groups\<close>

lemma group_rowToStudent: "group (rowToStudent r) = cell r 4"
  by (simp add: rowToStudent_def)

lemma group_rowOfBody: "group (rowToStudent (rowOfBody b)) = str (body_group b)"
  by (simp add: rowToStudent_def rowOfBody_def cell_def)

lemma roster_append:
  "sheet w \<noteq> [] \<Longrightarrow> roster (w'\<lparr>sheet := sheet w @ [r]\<rparr>) = roster w @ [rowToStudent r]"
  by (cases "sheet w") (simp_all add: roster_def)

lemma countInGroup_append:
  "countInGroup g (xs @ [s]) = countInGroup g xs + (if group s = g then 1 else 0)"
  by (simp add: countInGroup_def)

lemma register_full:
  assumes "faults w = []" and "reachesCapacityCheck e b w"
    and "str (body_group b) \<notin> set objectPrototype"
    and "MAX_STUDENTS_PER_GROUP e \<le> int (countInGroup (str (body_group b)) (roster w))"
  shows "fst (register e b w) = groupFull" and "sheet (snd (register e b w)) = sheet w"
  using assms register_store [of e b w]
  by (simp_all add: reachesCapacityCheck_def)

lemma register_room:
  assumes "faults w = []" and "reachesCapacityCheck e b w" and "sheet w \<noteq> []"
    and "int (countInGroup (str (body_group b)) (roster w)) < MAX_STUDENTS_PER_GROUP e"
  shows "fst (register e b w) = registered"
    and "sheet (snd (register e b w)) = sheet w @ [rowOfBody b]"
    and "countInGroup (str (body_group b)) (roster (snd (register e b w))) =
           countInGroup (str (body_group b)) (roster w) + 1"
proof -
  from assms have r: "register e b w =
      (registered,
       (afterCall (ValuesAppend Sheet1_A_E [rowOfBody b])
          (afterCall (ValuesGet Sheet1_A2_E) (afterCall (ValuesGet Sheet1_A2_E) w)))
       \<lparr>sheet := sheet w @ [rowOfBody b]\<rparr>)"
    using register_store [of e b w] by (simp add: reachesCapacityCheck_def)
  show "fst (register e b w) = registered" by (simp add: r)
  show "sheet (snd (register e b w)) = sheet w @ [rowOfBody b]" by (simp add: r)
  show "countInGroup (str (body_group b)) (roster (snd (register e b w))) =
           countInGroup (str (body_group b)) (roster w) + 1"
    unfolding r snd_conv roster_append [OF assms(3)] countInGroup_append
    by (simp add: group_rowOfBody)
qed

lemma groupsHandler_ok:
  "faults w = [] \<Longrightarrow>
     groupsHandler e w =
       (GroupsReply
          (map (\<lambda>g. \<lparr>groupName = g,
                     count = (if g \<in> set objectPrototype then NotNumber
                              else Number (if g = [] then 0 else countInGroup g (roster w))),
                     isFull = (g \<notin> set objectPrototype \<and>
                               MAX_STUDENTS_PER_GROUP e \<le>
                                 int (if g = [] then 0 else countInGroup g (roster w))),
                     maxStudents = MAX_STUDENTS_PER_GROUP e\<rparr>)
             (GROUP_NAMES e)),
        afterCall (ValuesGet Sheet1_A2_E) w)"
  by (simp add: groupsHandler_def getGroupCounts_ok read_tally geNumber_def)

lemma inherited_name_never_full:
  "faults w = [] \<Longrightarrow> g \<in> set objectPrototype \<Longrightarrow> fst (isGroupFull cap g w) = Inr False"
  by (simp add: isGroupFull_ok)

lemma getAllStudents_returns:
  "getAllStudents w = (Inr xs, w1) \<Longrightarrow> xs = roster w \<and> sheet w1 = sheet w"
  by (auto simp: getAllStudents_def values_get_def request_def rowsOf_def roster_def
      split: list.splits option.splits if_splits)

lemma header_after_init:
  "fst (initializeSheet w) = Inr u \<Longrightarrow> sheet (snd (initializeSheet w)) \<noteq> []"
  by (auto simp: initializeSheet_def values_get_def values_update_def request_def rowsOf_def
      split: list.splits option.splits if_splits prod.splits sum.splits error.splits)

lemma header_kept_by_register:
  "faults w = [] \<Longrightarrow> sheet w \<noteq> [] \<Longrightarrow> sheet (snd (register e b w)) \<noteq> []"
proof (cases "reachesDuplicateCheck e b")
  case True
  assume "faults w = []" "sheet w \<noteq> []"
  then show ?thesis unfolding register_store [OF True \<open>faults w = []\<close>] by simp
next
  case False
  assume "sheet w \<noteq> []"
  then show ?thesis unfolding register_early [OF False] by simp
qed

section \<open>Rows without a group\<close>

lemma faults_without [simp]: "faults (withoutEmptyGroupRows w) = faults w"
  by (simp add: withoutEmptyGroupRows_def)

lemma roster_without:
  "roster (withoutEmptyGroupRows w) = filter (\<lambda>s. group s \<noteq> []) (roster w)"
  by (cases "sheet w")
     (simp_all add: roster_def withoutEmptyGroupRows_def filter_map comp_def group_rowToStudent)

lemma countInGroup_named:
  "g \<noteq> [] \<Longrightarrow> countInGroup g (filter (\<lambda>s. group s \<noteq> []) xs) = countInGroup g xs"
  by (induction xs) (auto simp: countInGroup_def)

lemma tally_named: "tally (filter (\<lambda>s. group s \<noteq> []) xs) = tally xs"
  by (rule ext) (auto simp: tally_eq countInGroup_named)

lemma countInGroup_count_list:
  "countInGroup g xs = count_list (map group xs) g"
  by (induction xs) (simp_all add: countInGroup_def)

lemma countInGroup_counted:
  "g \<noteq> [] \<Longrightarrow> g \<notin> set objectPrototype \<Longrightarrow> countInGroup g (filter counted xs) = countInGroup g xs"
  by (induction xs) (auto simp: countInGroup_def counted_def)

lemma countInGroup_pos:
  "0 < countInGroup g xs \<longleftrightarrow> g \<in> group ` set xs"
  "countInGroup g xs = 0 \<longleftrightarrow> g \<notin> group ` set xs"
  using count_list_0_iff [of "map group xs" g]
  by (auto simp: countInGroup_count_list)

lemma finite_dom_tally: "finite (dom (tally xs))"
proof (rule finite_subset)
  show "dom (tally xs) \<subseteq> group ` set xs"
    by (auto simp: dom_def tally_eq countInGroup_pos split: if_splits)
  show "finite (group ` set xs)" by simp
qed

lemma sum_tally:
  "(\<Sum>g \<in> dom (tally xs). numberOf (tally xs g)) = length (filter counted xs)"
proof -
  let ?ys = "map group (filter counted xs)"
  have sub: "set ?ys \<subseteq> dom (tally xs)"
    using prototype_names
    by (auto simp: dom_def tally_eq countInGroup_pos counted_def)
  have zero: "\<forall>g \<in> dom (tally xs) - set ?ys. numberOf (tally xs g) = 0"
  proof
    fix g assume g: "g \<in> dom (tally xs) - set ?ys"
    then have "g \<noteq> []" "g \<in> group ` set xs"
      by (auto simp: dom_def tally_eq countInGroup_pos split: if_splits)
    moreover from g have "g \<notin> group ` {s \<in> set xs. counted s}" by auto
    ultimately have "g \<in> set objectPrototype" by (auto simp: counted_def)
    then show "numberOf (tally xs g) = 0" by (simp add: tally_eq numberOf_def)
  qed
  have "(\<Sum>g \<in> dom (tally xs). numberOf (tally xs g)) = (\<Sum>g \<in> set ?ys. numberOf (tally xs g))"
    by (rule sum.mono_neutral_right [OF finite_dom_tally sub zero])
  also have "\<dots> = (\<Sum>g \<in> set ?ys. count_list ?ys g)"
  proof (rule sum.cong)
    fix g assume "g \<in> set ?ys"
    then have g: "g \<noteq> []" "g \<notin> set objectPrototype" "g \<in> group ` set xs"
      by (auto simp: counted_def)
    have "count_list ?ys g = countInGroup g (filter counted xs)"
      by (simp add: countInGroup_count_list)
    also have "\<dots> = countInGroup g xs" using g by (simp add: countInGroup_counted)
    finally show "numberOf (tally xs g) = count_list ?ys g"
      using g prototype_names by (auto simp: tally_eq numberOf_def countInGroup_pos)
  qed simp
  also have "\<dots> = length ?ys" by (rule sum_count_set) simp_all
  finally show ?thesis by simp
qed

lemma sum_tally_less:
  "list_ex (\<lambda>s. group s = []) xs \<Longrightarrow>
     (\<Sum>g \<in> dom (tally xs). numberOf (tally xs g)) < length xs"
proof -
  assume "list_ex (\<lambda>s. group s = []) xs"
  then have "length (filter counted xs) < length xs"
    by (auto simp: list_ex_iff counted_def intro: length_filter_less)
  then show ?thesis by (simp add: sum_tally)
qed

section \<open>The initialization gate\<close>

lemma initPromise_never_rejected: "initPromise (fst (runInit e w)) \<noteq> Rejected"
  by (simp add: runInit_def split: prod.splits sum.splits)

lemma runInit_failed_in_production:
  "production e \<Longrightarrow> fst (initializeSheet w) = Inl err \<Longrightarrow>
     fst (runInit e w) = \<lparr>isSheetInitialized = False, initPromise = Fulfilled, exited = False\<rparr>"
  by (cases "initializeSheet w") (auto simp: runInit_def split: sum.splits)

lemma served_after_failed_init:
  "production e \<Longrightarrow> fst (initializeSheet w) = Inl err \<Longrightarrow>
     serve e (fst (runInit e w)) r w' = route e r w'"
  by (simp add: runInit_failed_in_production serve_def)

lemma held_before_init: "serve e boot r w = (Held, w)"
  by (simp add: serve_def boot_def)

lemma route_register:
  "fst (route e (PostRegister b) w) = Responded (fst (register e b w))"
  by (simp add: route_def split: prod.splits)

lemma route_not_unavailable: "fst (route e r w) \<noteq> Responded unavailable"
proof (cases r)
  case GetConfig
  then show ?thesis by (simp add: route_def configHandler_def unavailable_def)
next
  case GetGroups
  then show ?thesis
    by (simp add: route_def groupsHandler_def unavailable_def split: prod.splits sum.splits)
next
  case GetStudents
  then show ?thesis
    by (simp add: route_def studentsHandler_def unavailable_def split: prod.splits sum.splits)
next
  case (PostRegister b)
  show ?thesis
  proof (cases "reachesDuplicateCheck e b")
    case True
    from register_late [OF True, of w] show ?thesis
      unfolding PostRegister route_register
      by (auto simp: unavailable_def internalFailure_def duplicateEmail_def duplicatePhone_def
          groupFull_def registered_def)
  next
    case False
    show ?thesis
      unfolding PostRegister route_register register_early [OF False]
      by (simp add: unavailable_def missingFields_def tokenRequired_def tokenRejected_def
          invalidEmail_def invalidPhone_def invalidGroup_def)
  qed
qed

lemma never_unavailable: "fst (serve e (fst (runInit e w)) r w') \<noteq> Responded unavailable"
  using initPromise_never_rejected [of e w] route_not_unavailable [of e r w']
  by (cases "initPromise (fst (runInit e w))") (simp_all add: serve_def)

section \<open>The concrete inputs evaluated\<close>

lemma demo_names:
  "js ''A'' \<notin> set objectPrototype" "js ''B'' \<notin> set objectPrototype" "js ''A'' \<noteq> []"
  by (simp_all add: objectPrototype_def js_def)

lemma demo_fields:
  "str (body_email (demoBody em ph g)) = js em" "str (body_phone (demoBody em ph g)) = js ph"
  "str (body_group (demoBody em ph g)) = js g" "toLowerCase (demoEnv names cap) = asciiLower"
  "MAX_STUDENTS_PER_GROUP (demoEnv names cap) = cap" "GROUP_NAMES (demoEnv names cap) = names"
  "faults (demoWorld rows) = []" "sheet (demoWorld rows) = headerRow # rows"
  by (simp_all add: demoBody_def demoEnv_def demoWorld_def str_def)

lemma demo_roster: "roster (demoWorld rows) = map rowToStudent rows"
  by (simp add: roster_def demoWorld_def)

lemma demo_student:
  "rowToStudent (demoRow em ph g) =
     \<lparr>name = js ''Binh'', email = js em, phone = js ph, school = js ''THCS'', group = js g\<rparr>"
  by (simp add: rowToStudent_def demoRow_def cell_def)

lemma demo_reachesEmailCheck: "reachesEmailCheck (demoEnv names cap) (demoBody em ph g) = (em \<noteq> [] \<and> ph \<noteq> [] \<and> g \<noteq> [])"
  by (auto simp: reachesEmailCheck_def fieldsPresent_def demoEnv_def demoBody_def falsy_def
      js_def verifyRecaptcha_def str_def)

lemma demo_reachesDuplicateCheck:
  "reachesDuplicateCheck (demoEnv names cap) (demoBody em ph g) =
     (em \<noteq> [] \<and> ph \<noteq> [] \<and> g \<noteq> [] \<and> test emailRegex (js em) \<and>
      test phoneRegex (stripSpacesDashes (js ph)) \<and> js g \<in> set names)"
  by (auto simp: reachesDuplicateCheck_def reachesGroupCheck_def reachesPhoneCheck_def
      demo_reachesEmailCheck) (simp_all add: demoBody_def demoEnv_def str_def)

lemma demo_reachesCapacityCheck:
  "reachesCapacityCheck (demoEnv names cap) (demoBody em ph g) (demoWorld rows) =
     (reachesDuplicateCheck (demoEnv names cap) (demoBody em ph g) \<and>
      \<not> emailTaken asciiLower (map rowToStudent rows) (js em) \<and>
      \<not> phoneTaken (map rowToStudent rows) (js ph))"
  by (simp add: reachesCapacityCheck_def demo_fields demo_roster)

section \<open>Properties of the registration service\<close>

text \<open>
  Claim C1 (capacity boundary), as amended.  The sheet answers every call.  For every
  group name \<open>g\<close> that is not the empty string and not the name of a property that objects
  inherit, \<open>isGroupFull g\<close> is true exactly when the number of student records whose group
  equals \<open>g\<close> is at or above the capacity.  A submission for such a group that passes all
  the checks before the capacity check is answered with the group-full message, and the
  sheet keeps its rows, when the count of its group is at or above the capacity.  When the
  sheet has its header row and the count is the capacity minus one, a submission that passes
  the checks before succeeds, its row is appended, and the count of the group in the new
  sheet is exactly the capacity.
\<close>

theorem C1_capacity_boundary:
  "faults w = [] \<Longrightarrow>
     (g \<noteq> [] \<and> g \<notin> set objectPrototype \<longrightarrow>
        fst (isGroupFull (MAX_STUDENTS_PER_GROUP e) g w) =
          Inr (MAX_STUDENTS_PER_GROUP e \<le> int (countInGroup g (roster w)))) \<and>
     (reachesCapacityCheck e b w \<and> str (body_group b) \<notin> set objectPrototype \<and>
      MAX_STUDENTS_PER_GROUP e \<le> int (countInGroup (str (body_group b)) (roster w)) \<longrightarrow>
        fst (register e b w) = groupFull \<and> sheet (snd (register e b w)) = sheet w) \<and>
     (reachesCapacityCheck e b w \<and> sheet w \<noteq> [] \<and>
      int (countInGroup (str (body_group b)) (roster w)) = MAX_STUDENTS_PER_GROUP e - 1 \<longrightarrow>
        fst (register e b w) = registered \<and>
        sheet (snd (register e b w)) = sheet w @ [rowOfBody b] \<and>
        int (countInGroup (str (body_group b)) (roster (snd (register e b w)))) =
          MAX_STUDENTS_PER_GROUP e)"
proof -
  assume f: "faults w = []"
  have a: "g \<noteq> [] \<and> g \<notin> set objectPrototype \<longrightarrow>
        fst (isGroupFull (MAX_STUDENTS_PER_GROUP e) g w) =
          Inr (MAX_STUDENTS_PER_GROUP e \<le> int (countInGroup g (roster w)))"
    by (simp add: isGroupFull_ok [OF f])
  have b: "reachesCapacityCheck e b w \<and> str (body_group b) \<notin> set objectPrototype \<and>
      MAX_STUDENTS_PER_GROUP e \<le> int (countInGroup (str (body_group b)) (roster w)) \<longrightarrow>
        fst (register e b w) = groupFull \<and> sheet (snd (register e b w)) = sheet w"
    using register_full [OF f] by blast
  have c: "reachesCapacityCheck e b w \<and> sheet w \<noteq> [] \<and>
      int (countInGroup (str (body_group b)) (roster w)) = MAX_STUDENTS_PER_GROUP e - 1 \<longrightarrow>
        fst (register e b w) = registered \<and>
        sheet (snd (register e b w)) = sheet w @ [rowOfBody b] \<and>
        int (countInGroup (str (body_group b)) (roster (snd (register e b w)))) =
          MAX_STUDENTS_PER_GROUP e"
  proof (intro impI)
    assume h: "reachesCapacityCheck e b w \<and> sheet w \<noteq> [] \<and>
      int (countInGroup (str (body_group b)) (roster w)) = MAX_STUDENTS_PER_GROUP e - 1"
    then have lt: "int (countInGroup (str (body_group b)) (roster w)) < MAX_STUDENTS_PER_GROUP e"
      by simp
    from h register_room [OF f _ _ lt] show "fst (register e b w) = registered \<and>
        sheet (snd (register e b w)) = sheet w @ [rowOfBody b] \<and>
        int (countInGroup (str (body_group b)) (roster (snd (register e b w)))) =
          MAX_STUDENTS_PER_GROUP e"
      by simp
  qed
  from a b c show ?thesis by blast
qed

theorem C1_capacity_boundary_witness:
  "faults (demoWorld [demoRow ''b@c.de'' ''0999999999'' ''A'']) = [] \<and>
   js ''A'' \<noteq> [] \<and> js ''A'' \<notin> set objectPrototype \<and>
   fst (isGroupFull 2 (js ''A'') (demoWorld [demoRow ''b@c.de'' ''0999999999'' ''A''])) = Inr False \<and>
   reachesCapacityCheck (demoEnv [js ''A'', js ''B''] 2) (demoBody ''a@b.co'' ''0123456789'' ''A'')
     (demoWorld [demoRow ''b@c.de'' ''0999999999'' ''A'']) \<and>
   sheet (demoWorld [demoRow ''b@c.de'' ''0999999999'' ''A'']) \<noteq> [] \<and>
   int (countInGroup (js ''A'') (roster (demoWorld [demoRow ''b@c.de'' ''0999999999'' ''A''])))
     = 2 - 1 \<and>
   fst (register (demoEnv [js ''A'', js ''B''] 2) (demoBody ''a@b.co'' ''0123456789'' ''A'')
          (demoWorld [demoRow ''b@c.de'' ''0999999999'' ''A''])) = registered \<and>
   countInGroup (js ''A'')
     (roster (snd (register (demoEnv [js ''A'', js ''B''] 2)
                     (demoBody ''a@b.co'' ''0123456789'' ''A'')
                     (demoWorld [demoRow ''b@c.de'' ''0999999999'' ''A''])))) = 2 \<and>
   reachesCapacityCheck (demoEnv [js ''A'', js ''B''] 1) (demoBody ''a@b.co'' ''0123456789'' ''A'')
     (demoWorld [demoRow ''b@c.de'' ''0999999999'' ''A'']) \<and>
   fst (isGroupFull 1 (js ''A'') (demoWorld [demoRow ''b@c.de'' ''0999999999'' ''A''])) = Inr True \<and>
   register (demoEnv [js ''A'', js ''B''] 1) (demoBody ''a@b.co'' ''0123456789'' ''A'')
       (demoWorld [demoRow ''b@c.de'' ''0999999999'' ''A'']) =
     (groupFull,
      \<lparr>sheet = headerRow # [demoRow ''b@c.de'' ''0999999999'' ''A''], faults = [],
       calls = [ValuesGet Sheet1_A2_E, ValuesGet Sheet1_A2_E]\<rparr>)"
proof -
  let ?w = "demoWorld [demoRow ''b@c.de'' ''0999999999'' ''A'']"
  let ?b = "demoBody ''a@b.co'' ''0123456789'' ''A''"
  have e: "test emailRegex (js ''a@b.co'')"
    by (simp add: js_def emailRegex_def oneOrMore_def notSpaceAt_def isWhiteSpace_def)
  have p: "test phoneRegex (stripSpacesDashes (js ''0123456789''))"
    unfolding test_phoneRegex
    by (simp add: js_def stripSpacesDashes_def spaceOrDash_def isWhiteSpace_def isDigit_def)
  have m: "js ''A'' \<in> set [js ''A'', js ''B'']" by simp
  have t: "\<not> emailTaken asciiLower [rowToStudent (demoRow ''b@c.de'' ''0999999999'' ''A'')] (js ''a@b.co'')"
    by (simp add: emailTaken_def sameEmail_def demo_student asciiLower_def js_def)
  have u: "\<not> phoneTaken [rowToStudent (demoRow ''b@c.de'' ''0999999999'' ''A'')] (js ''0123456789'')"
    by (simp add: phoneTaken_def samePhone_def demo_student js_def stripSpacesDashes_def
        spaceOrDash_def isWhiteSpace_def)
  have r: "\<And>cap. reachesCapacityCheck (demoEnv [js ''A'', js ''B''] cap) ?b ?w"
    unfolding demo_reachesCapacityCheck demo_reachesDuplicateCheck using e p m t u by simp
  have c: "countInGroup (js ''A'') (roster ?w) = 1"
    by (simp add: demo_roster demo_student countInGroup_def)
  have one: "fst (register (demoEnv [js ''A'', js ''B''] 1) ?b ?w) = groupFull"
    using C1_capacity_boundary [of ?w "js ''A''" "demoEnv [js ''A'', js ''B''] 1" ?b]
      r c demo_names
    by (simp add: demo_fields)
  have trace: "snd (register (demoEnv [js ''A'', js ''B''] 1) ?b ?w) =
      \<lparr>sheet = headerRow # [demoRow ''b@c.de'' ''0999999999'' ''A''], faults = [],
       calls = [ValuesGet Sheet1_A2_E, ValuesGet Sheet1_A2_E]\<rparr>"
    using register_store [of "demoEnv [js ''A'', js ''B''] 1" ?b ?w] r [of 1] t u c demo_names
    by (simp add: reachesCapacityCheck_def demo_fields demo_roster)
       (simp add: demoWorld_def afterCall_def)
  have full: "register (demoEnv [js ''A'', js ''B''] 1) ?b ?w =
     (groupFull,
      \<lparr>sheet = headerRow # [demoRow ''b@c.de'' ''0999999999'' ''A''], faults = [],
       calls = [ValuesGet Sheet1_A2_E, ValuesGet Sheet1_A2_E]\<rparr>)"
    using one trace by (simp add: prod_eq_iff)
  show ?thesis
    using C1_capacity_boundary [of ?w "js ''A''" "demoEnv [js ''A'', js ''B''] 2" ?b]
      C1_capacity_boundary [of ?w "js ''A''" "demoEnv [js ''A'', js ''B''] 1" ?b]
      r c demo_names full
    by (simp add: demo_fields)
qed

text \<open>
  Claim C1 as stated, for every configured group, fails for a configured name that is empty:
  with the names \<open>A\<close> and the empty string, capacity 1 and one row whose group cell is
  missing, the number of records whose group is the empty string is at the capacity and
  \<open>isGroupFull\<close> answers false.
\<close>

theorem C1_empty_name_counterexample:
  "[] \<in> set (GROUP_NAMES (demoEnv [js ''A'', []] 1)) \<and>
   faults (demoWorld [[js ''Binh'', js ''b@c.de'', js ''0999999999'', js ''THCS'']]) = [] \<and>
   fst (isGroupFull (MAX_STUDENTS_PER_GROUP (demoEnv [js ''A'', []] 1)) []
          (demoWorld [[js ''Binh'', js ''b@c.de'', js ''0999999999'', js ''THCS'']])) = Inr False \<and>
   MAX_STUDENTS_PER_GROUP (demoEnv [js ''A'', []] 1) \<le>
     int (countInGroup []
            (roster (demoWorld [[js ''Binh'', js ''b@c.de'', js ''0999999999'', js ''THCS'']])))"
  using prototype_names
  by (simp add: demo_fields demo_roster isGroupFull_def getGroupCounts_def getAllStudents_def
      values_get_def request_def rowsOf_def tally_def countStudent_def orZero_def getProp_def
      geNumber_def rowToStudent_def cell_def countInGroup_def)

text \<open>
  Claim C2 (duplicate rejection).  The sheet answers every call.  For every store state and
  every candidate, \<open>checkDuplicate\<close> reports a duplicate exactly when some student record
  has the candidate's email under case-insensitive comparison or the candidate's phone after
  white space and dashes are stripped from both, and the field it reports is \<open>email\<close> when
  an email matches and \<open>phone\<close> otherwise.  The checks of \<open>register\<close> run in order, so the
  duplicate check decides for the submissions that pass the checks before it: \<open>register\<close>
  answers with the duplicate-email message exactly when such a submission has a matching
  email, with the duplicate-phone message exactly when it has no matching email and a
  matching phone, and a duplicate rejection leaves the rows of the sheet as they were.
\<close>

theorem C2_duplicate_rejection:
  "faults w = [] \<Longrightarrow>
     fst (checkDuplicate lower em ph w) =
       Inr \<lparr>isDuplicate = (emailTaken lower (roster w) em \<or> phoneTaken (roster w) ph),
            field = (if emailTaken lower (roster w) em then Some ''email''
                     else if phoneTaken (roster w) ph then Some ''phone'' else None)\<rparr> \<and>
     (fst (register e b w) = duplicateEmail \<longleftrightarrow>
        reachesDuplicateCheck e b \<and> emailTaken (toLowerCase e) (roster w) (str (body_email b))) \<and>
     (fst (register e b w) = duplicatePhone \<longleftrightarrow>
        reachesDuplicateCheck e b \<and> \<not> emailTaken (toLowerCase e) (roster w) (str (body_email b)) \<and>
        phoneTaken (roster w) (str (body_phone b))) \<and>
     (fst (register e b w) = duplicateEmail \<or> fst (register e b w) = duplicatePhone \<longrightarrow>
        sheet (snd (register e b w)) = sheet w)"
proof -
  assume f: "faults w = []"
  have "checkDuplicate lower em ph w =
      (Inr (if emailTaken lower (roster w) em then \<lparr>isDuplicate = True, field = Some ''email''\<rparr>
            else if phoneTaken (roster w) ph then \<lparr>isDuplicate = True, field = Some ''phone''\<rparr>
            else \<lparr>isDuplicate = False, field = None\<rparr>),
       afterCall (ValuesGet Sheet1_A2_E) w)"
    using f by (rule checkDuplicate_ok)
  then have "fst (checkDuplicate lower em ph w) =
       Inr \<lparr>isDuplicate = (emailTaken lower (roster w) em \<or> phoneTaken (roster w) ph),
            field = (if emailTaken lower (roster w) em then Some ''email''
                     else if phoneTaken (roster w) ph then Some ''phone'' else None)\<rparr>"
    by simp
  with register_duplicate [OF f, of e b] show ?thesis by blast
qed

theorem C2_duplicate_rejection_witness:
  "faults (demoWorld [demoRow ''A@b.com'' ''0999999999'' ''B'']) = [] \<and>
   fst (register (demoEnv [js ''A'', js ''B''] 5) (demoBody ''a@B.com'' ''0123456789'' ''A'')
          (demoWorld [demoRow ''A@b.com'' ''0999999999'' ''B'']))
     = Reply 400 False ''Email already exists. Please use a different email.'' \<and>
   fst (register (demoEnv [js ''A'', js ''B''] 5) (demoBody ''c@d.com'' ''0123456789'' ''A'')
          (demoWorld [demoRow ''A@b.com'' ''0123-456-789'' ''B'']))
     = Reply 400 False ''Phone number already exists. Please use a different phone.''"
proof -
  have e1: "test emailRegex (js ''a@B.com'')" and e2: "test emailRegex (js ''c@d.com'')"
    by (simp_all add: js_def emailRegex_def oneOrMore_def notSpaceAt_def isWhiteSpace_def)
  have p: "test phoneRegex (stripSpacesDashes (js ''0123456789''))"
    unfolding test_phoneRegex
    by (simp add: js_def stripSpacesDashes_def spaceOrDash_def isWhiteSpace_def isDigit_def)
  have r1: "reachesDuplicateCheck (demoEnv [js ''A'', js ''B''] 5) (demoBody ''a@B.com'' ''0123456789'' ''A'')"
    and r2: "reachesDuplicateCheck (demoEnv [js ''A'', js ''B''] 5) (demoBody ''c@d.com'' ''0123456789'' ''A'')"
    using e1 e2 p by (simp_all add: demo_reachesDuplicateCheck)
  have t1: "emailTaken asciiLower [rowToStudent (demoRow ''A@b.com'' ''0999999999'' ''B'')] (js ''a@B.com'')"
    by (simp add: emailTaken_def sameEmail_def demo_student asciiLower_def js_def)
  have t2: "\<not> emailTaken asciiLower [rowToStudent (demoRow ''A@b.com'' ''0123-456-789'' ''B'')] (js ''c@d.com'')"
    by (simp add: emailTaken_def sameEmail_def demo_student asciiLower_def js_def)
  have t3: "phoneTaken [rowToStudent (demoRow ''A@b.com'' ''0123-456-789'' ''B'')] (js ''0123456789'')"
    by (simp add: phoneTaken_def samePhone_def demo_student js_def stripSpacesDashes_def
        spaceOrDash_def isWhiteSpace_def)
  show ?thesis
    using C2_duplicate_rejection [of "demoWorld [demoRow ''A@b.com'' ''0999999999'' ''B'']"
        asciiLower "js ''a@B.com''" "js ''0123456789''" "demoEnv [js ''A'', js ''B''] 5"
        "demoBody ''a@B.com'' ''0123456789'' ''A''"]
      C2_duplicate_rejection [of "demoWorld [demoRow ''A@b.com'' ''0123-456-789'' ''B'']"
        asciiLower "js ''c@d.com''" "js ''0123456789''" "demoEnv [js ''A'', js ''B''] 5"
        "demoBody ''c@d.com'' ''0123456789'' ''A''"]
      r1 r2 t1 t2 t3
    by (simp add: demo_fields demo_roster duplicateEmail_def duplicatePhone_def)
qed

text \<open>
  Claim C3 (storage not ready).  The claim says that after a failed initialization in
  production every request is answered 503.  The code does not do that: with
  \<open>NODE_ENV\<close> set to \<open>production\<close> and a first call to the sheet that throws,
  \<open>initializeSheet\<close> fails, the function behind \<open>initPromise\<close> catches the error and returns,
  the promise is fulfilled, and the middleware passes the request on; \<open>GET /api/config\<close> is
  answered with the site key.  The same holds for every request and every failed
  initialization in production (\<open>served_after_failed_init\<close>), and no request is ever
  answered with the 503 message (\<open>never_unavailable\<close>); before the promise is settled a
  request waits (\<open>held_before_init\<close>).
\<close>

theorem C3_failed_init_still_served:
  "production (demoEnv [js ''A''] 5) \<and>
   fst (initializeSheet \<lparr>sheet = [], faults = [Some ''403''], calls = []\<rparr>) =
     Inl (Error ''Failed to initialize Google Sheet: 403'') \<and>
   fst (runInit (demoEnv [js ''A''] 5) \<lparr>sheet = [], faults = [Some ''403''], calls = []\<rparr>) =
     \<lparr>isSheetInitialized = False, initPromise = Fulfilled, exited = False\<rparr> \<and>
   fst (serve (demoEnv [js ''A''] 5)
          (fst (runInit (demoEnv [js ''A''] 5) \<lparr>sheet = [], faults = [Some ''403''], calls = []\<rparr>))
          GetConfig
          (snd (runInit (demoEnv [js ''A''] 5) \<lparr>sheet = [], faults = [Some ''403''], calls = []\<rparr>))) =
     Responded (ConfigReply (js ''site''))"
  by (simp add: demoEnv_def runInit_def initializeSheet_def values_get_def request_def
      serve_def route_def configHandler_def str_def)

text \<open>
  Claim C4 (missing-field atomicity).  When any of name, email, phone, school or group is
  absent from a submission, \<open>register\<close> answers 400 with the missing-fields message and
  the world is returned as it was: no call is made to the sheet and no row is appended.
\<close>

theorem C4_missing_field_rejected:
  "body_name b = None \<or> body_email b = None \<or> body_phone b = None \<or>
   body_school b = None \<or> body_group b = None \<Longrightarrow>
     register e b w = (Reply 400 False ''All fields are required'', w)"
proof -
  assume "body_name b = None \<or> body_email b = None \<or> body_phone b = None \<or>
    body_school b = None \<or> body_group b = None"
  then have "\<not> fieldsPresent b" by (auto simp: fieldsPresent_def falsy_def)
  then have "register e b w = (missingFields, w)" by (rule register_missing)
  then show ?thesis by (simp add: missingFields_def)
qed

theorem C4_missing_field_rejected_witness:
  "body_school ((demoBody ''a@b.co'' ''0123456789'' ''A'')\<lparr>body_school := None\<rparr>) = None \<and>
   register (demoEnv [js ''A''] 5) ((demoBody ''a@b.co'' ''0123456789'' ''A'')\<lparr>body_school := None\<rparr>)
       (demoWorld [])
     = (Reply 400 False ''All fields are required'', demoWorld [])"
  using C4_missing_field_rejected
    [of "(demoBody ''a@b.co'' ''0123456789'' ''A'')\<lparr>body_school := None\<rparr>"
        "demoEnv [js ''A''] 5" "demoWorld []"]
  by simp

text \<open>
  Claim C5 (email-format gate).  A submission whose email does not have the shape
  \<open>local@domain.tld\<close> (so every email that lacks a non-empty local part, the \<open>@\<close>, a dot in
  the domain, or that holds white space) is rejected with status 400 and the world is
  returned as it was: the
  sheet is the same and the trace of calls has no new entry, so no read and no append was
  made.  The checks run in order: the reason is the invalid-email message exactly when the
  submission passes the checks before the email check (required fields, token), and the
  reason of the earlier check that fails otherwise.
\<close>

theorem C5_email_gate:
  "\<not> emailShape (str (body_email b)) \<Longrightarrow>
     (\<exists>m. register e b w = (Reply 400 False m, w)) \<and>
     (reachesEmailCheck e b \<longrightarrow> register e b w = (invalidEmail, w)) \<and>
     (fst (register e b w) = invalidEmail \<longleftrightarrow> reachesEmailCheck e b)"
proof -
  assume "\<not> emailShape (str (body_email b))"
  then have no: "\<not> test emailRegex (str (body_email b))" by (simp add: test_emailRegex)
  then have early: "\<not> reachesDuplicateCheck e b"
    by (simp add: reachesDuplicateCheck_def reachesGroupCheck_def reachesPhoneCheck_def)
  have "\<exists>m. register e b w = (Reply 400 False m, w)"
    unfolding register_early [OF early] using no
    by (simp add: missingFields_def tokenRequired_def tokenRejected_def invalidEmail_def)
  moreover have "reachesEmailCheck e b \<longrightarrow> register e b w = (invalidEmail, w)"
    using no register_email by blast
  moreover have "fst (register e b w) = invalidEmail \<longleftrightarrow> reachesEmailCheck e b"
    using no register_email [of e b w] register_invalidEmail [of e b w] by auto
  ultimately show ?thesis by blast
qed

theorem C5_email_gate_witness:
  "\<not> emailShape (str (body_email (demoBody ''an.example.com'' ''0123456789'' ''A''))) \<and>
   reachesEmailCheck (demoEnv [js ''A''] 5) (demoBody ''an.example.com'' ''0123456789'' ''A'') \<and>
   register (demoEnv [js ''A''] 5) (demoBody ''an.example.com'' ''0123456789'' ''A'')
       (demoWorld [])
     = (Reply 400 False ''Invalid email format'', demoWorld [])"
proof -
  have "64 \<notin> set (js ''an.example.com'')" by (simp add: js_def)
  then have shape: "\<not> emailShape (str (body_email (demoBody ''an.example.com'' ''0123456789'' ''A'')))"
    by (simp add: not_emailShape demoBody_def str_def)
  have reach: "reachesEmailCheck (demoEnv [js ''A''] 5) (demoBody ''an.example.com'' ''0123456789'' ''A'')"
    by (simp add: demo_reachesEmailCheck)
  show ?thesis
    using C5_email_gate [OF shape, of "demoEnv [js ''A''] 5" "demoWorld []"] shape reach
    by (simp add: invalidEmail_def)
qed

text \<open>
  Claim C6 (phone-format gate).  The checks run in order, so the phone check decides for the
  submissions that pass the checks before it (required fields, token, email format).
  \<open>register\<close> answers with the invalid-phone message exactly when such a submission has a
  phone that, with its white space and dashes removed, is not a string of digits of length
  10 or 11; a phone whose stripped form is such a string is never answered with that
  message.
\<close>

theorem C6_phone_gate:
  "(fst (register e b w) = invalidPhone) =
     (reachesPhoneCheck e b \<and> \<not> tenOrElevenDigits (stripSpacesDashes (str (body_phone b))))"
proof -
  have digits: "test phoneRegex (stripSpacesDashes (str (body_phone b))) \<longleftrightarrow>
      tenOrElevenDigits (stripSpacesDashes (str (body_phone b)))"
    by (simp add: test_phoneRegex tenOrElevenDigits_def)
  show ?thesis
  proof
    assume "fst (register e b w) = invalidPhone"
    then show "reachesPhoneCheck e b \<and>
        \<not> tenOrElevenDigits (stripSpacesDashes (str (body_phone b)))"
      using register_invalidPhone [of e b w] digits by blast
  next
    assume "reachesPhoneCheck e b \<and>
        \<not> tenOrElevenDigits (stripSpacesDashes (str (body_phone b)))"
    then show "fst (register e b w) = invalidPhone"
      using register_phone [of e b w] digits by simp
  qed
qed

theorem C6_phone_gate_witness:
  "fst (register (demoEnv [js ''A''] 5) (demoBody ''a@b.co'' ''0123 456'' ''A'') (demoWorld []))
     = invalidPhone \<and>
   fst (register (demoEnv [js ''A''] 5) (demoBody ''a@b.co'' ''0123-456 789'' ''A'') (demoWorld []))
     \<noteq> invalidPhone"
proof -
  have e: "test emailRegex (js ''a@b.co'')"
    by (simp add: js_def emailRegex_def oneOrMore_def notSpaceAt_def isWhiteSpace_def)
  have r: "\<And>ph. ph \<noteq> [] \<Longrightarrow> reachesPhoneCheck (demoEnv [js ''A''] 5) (demoBody ''a@b.co'' ph ''A'')"
    using e by (simp add: reachesPhoneCheck_def demo_reachesEmailCheck) (simp add: demoBody_def str_def)
  have p1: "\<not> tenOrElevenDigits (stripSpacesDashes (str (body_phone (demoBody ''a@b.co'' ''0123 456'' ''A''))))"
    by (simp add: tenOrElevenDigits_def demoBody_def str_def js_def stripSpacesDashes_def
        spaceOrDash_def isWhiteSpace_def)
  have p2: "tenOrElevenDigits (stripSpacesDashes (str (body_phone (demoBody ''a@b.co'' ''0123-456 789'' ''A''))))"
    by (simp add: tenOrElevenDigits_def demoBody_def str_def js_def stripSpacesDashes_def
        spaceOrDash_def isWhiteSpace_def isDigit_def)
  show ?thesis
    using C6_phone_gate [of "demoEnv [js ''A''] 5" "demoBody ''a@b.co'' ''0123 456'' ''A''" "demoWorld []"]
      C6_phone_gate [of "demoEnv [js ''A''] 5" "demoBody ''a@b.co'' ''0123-456 789'' ''A''" "demoWorld []"]
      r p1 p2
    by simp
qed




text \<open>
  Claim C8 (reads repeat).  Two calls of \<open>getAllStudents\<close> that both return, with nothing
  written in between, return the same sequence of records, and the sheet is the same
  afterwards.  The sequence is a function of the rows of the sheet alone: one record for every
  row below the header row, a missing cell read as the empty string.  When the sheet answers
  every call, both calls return.
\<close>

theorem C8_reads_repeat:
  "(getAllStudents w = (Inr xs, w1) \<and> getAllStudents w1 = (Inr ys, w2) \<longrightarrow>
      ys = xs \<and> xs = map rowToStudent (drop 1 (sheet w)) \<and> sheet w2 = sheet w) \<and>
   (faults w = [] \<longrightarrow>
      fst (getAllStudents w) = Inr (map rowToStudent (drop 1 (sheet w))) \<and>
      fst (getAllStudents (snd (getAllStudents w))) = fst (getAllStudents w))"
proof -
  have "getAllStudents w = (Inr xs, w1) \<and> getAllStudents w1 = (Inr ys, w2) \<longrightarrow>
      ys = xs \<and> xs = map rowToStudent (drop 1 (sheet w)) \<and> sheet w2 = sheet w"
    using getAllStudents_returns [of w xs w1] getAllStudents_returns [of w1 ys w2]
    by (auto simp: roster_def)
  moreover have "faults w = [] \<longrightarrow>
      fst (getAllStudents w) = Inr (map rowToStudent (drop 1 (sheet w))) \<and>
      fst (getAllStudents (snd (getAllStudents w))) = fst (getAllStudents w)"
    by (simp add: getAllStudents_ok roster_def)
  ultimately show ?thesis by blast
qed

theorem C8_reads_repeat_witness:
  "faults (demoWorld [demoRow ''b@c.de'' ''0999999999'' ''B'', [js ''Chi'']]) = [] \<and>
   fst (getAllStudents (demoWorld [demoRow ''b@c.de'' ''0999999999'' ''B'', [js ''Chi'']])) =
     Inr [\<lparr>name = js ''Binh'', email = js ''b@c.de'', phone = js ''0999999999'',
           school = js ''THCS'', group = js ''B''\<rparr>,
          \<lparr>name = js ''Chi'', email = [], phone = [], school = [], group = []\<rparr>] \<and>
   fst (getAllStudents
          (snd (getAllStudents (demoWorld [demoRow ''b@c.de'' ''0999999999'' ''B'', [js ''Chi'']])))) =
     Inr [\<lparr>name = js ''Binh'', email = js ''b@c.de'', phone = js ''0999999999'',
           school = js ''THCS'', group = js ''B''\<rparr>,
          \<lparr>name = js ''Chi'', email = [], phone = [], school = [], group = []\<rparr>]"
  using C8_reads_repeat [of "demoWorld [demoRow ''b@c.de'' ''0999999999'' ''B'', [js ''Chi'']]"]
  by (simp add: demo_fields demo_student) (simp add: rowToStudent_def cell_def)

text \<open>
  Claim C9 (the email is reported first).  The sheet answers every call.  For a candidate
  whose email matches a record and whose phone matches a record, \<open>checkDuplicate\<close> reports
  the field \<open>email\<close>.
\<close>

theorem C9_email_reported_first:
  "faults w = [] \<Longrightarrow> emailTaken lower (roster w) em \<Longrightarrow> phoneTaken (roster w) ph \<Longrightarrow>
     fst (checkDuplicate lower em ph w) = Inr \<lparr>isDuplicate = True, field = Some ''email''\<rparr>"
proof -
  assume f: "faults w = []" and taken: "emailTaken lower (roster w) em"
  have "getAllStudents w = (Inr (roster w), afterCall (ValuesGet Sheet1_A2_E) w)"
    using f by (rule getAllStudents_ok)
  moreover have "list_ex (\<lambda>s. lower (email s) = lower em) (roster w)"
    using taken by (simp add: emailTaken_def sameEmail_def list_ex_iff)
  ultimately show ?thesis
    by (simp add: checkDuplicate_def Let_def)
qed

theorem C9_email_reported_first_witness:
  "faults (demoWorld [demoRow ''A@b.com'' ''0123-456-789'' ''B'']) = [] \<and>
   emailTaken asciiLower (roster (demoWorld [demoRow ''A@b.com'' ''0123-456-789'' ''B'']))
     (js ''a@B.com'') \<and>
   phoneTaken (roster (demoWorld [demoRow ''A@b.com'' ''0123-456-789'' ''B''])) (js ''0123456789'') \<and>
   fst (checkDuplicate asciiLower (js ''a@B.com'') (js ''0123456789'')
          (demoWorld [demoRow ''A@b.com'' ''0123-456-789'' ''B''])) =
     Inr \<lparr>isDuplicate = True, field = Some ''email''\<rparr>"
proof -
  have f: "faults (demoWorld [demoRow ''A@b.com'' ''0123-456-789'' ''B'']) = []"
    by (simp add: demo_fields)
  have t: "emailTaken asciiLower (roster (demoWorld [demoRow ''A@b.com'' ''0123-456-789'' ''B'']))
     (js ''a@B.com'')"
    by (simp add: demo_roster emailTaken_def sameEmail_def demo_student asciiLower_def js_def)
  have u: "phoneTaken (roster (demoWorld [demoRow ''A@b.com'' ''0123-456-789'' ''B''])) (js ''0123456789'')"
    by (simp add: demo_roster phoneTaken_def samePhone_def demo_student js_def stripSpacesDashes_def
        spaceOrDash_def isWhiteSpace_def)
  from C9_email_reported_first [OF f t u] f t u show ?thesis by simp
qed

text \<open>
  Claim C10 (rows without a group are not counted).  The sheet answers every call.  A row
  below the header whose group cell is empty or missing is among the records
  \<open>getAllStudents\<close> returns, with the empty string as its group.  The mapping of
  \<open>getGroupCounts\<close> has no entry for the empty string and is the mapping of the records
  that have a group.  The sum of the numbers it holds is the number of records that are
  counted under their group, so it is below the number of records when some record has no
  group.  \<open>getGroupCounts\<close>, \<open>isGroupFull\<close> and \<open>GET /api/groups\<close> answer the same when
  the rows without a group are taken out of the sheet.
\<close>

theorem C10_empty_group_rows_uncounted:
  "faults w = [] \<Longrightarrow>
     fst (getAllStudents w) = Inr (roster w) \<and>
     (r \<in> set (drop 1 (sheet w)) \<and> cell r 4 = [] \<longrightarrow>
        rowToStudent r \<in> set (roster w) \<and> group (rowToStudent r) = []) \<and>
     fst (getGroupCounts w) = Inr (tally (roster w)) \<and>
     tally (roster w) [] = None \<and>
     tally (roster w) = tally (filter (\<lambda>s. group s \<noteq> []) (roster w)) \<and>
     (\<Sum>g \<in> dom (tally (roster w)). numberOf (tally (roster w) g)) =
       length (filter counted (roster w)) \<and>
     (list_ex (\<lambda>s. group s = []) (roster w) \<longrightarrow>
        (\<Sum>g \<in> dom (tally (roster w)). numberOf (tally (roster w) g)) < length (roster w)) \<and>
     fst (getGroupCounts (withoutEmptyGroupRows w)) = fst (getGroupCounts w) \<and>
     fst (isGroupFull cap g (withoutEmptyGroupRows w)) = fst (isGroupFull cap g w) \<and>
     fst (groupsHandler e (withoutEmptyGroupRows w)) = fst (groupsHandler e w)"
proof -
  assume f: "faults w = []"
  then have f': "faults (withoutEmptyGroupRows w) = []" by simp
  have 1: "fst (getAllStudents w) = Inr (roster w)" by (simp add: getAllStudents_ok [OF f])
  have 2: "r \<in> set (drop 1 (sheet w)) \<and> cell r 4 = [] \<longrightarrow>
        rowToStudent r \<in> set (roster w) \<and> group (rowToStudent r) = []"
    by (simp add: roster_def group_rowToStudent)
  have 3: "fst (getGroupCounts w) = Inr (tally (roster w))" by (simp add: getGroupCounts_ok [OF f])
  have 4: "tally (roster w) [] = None" by (simp add: tally_eq)
  have 5: "tally (roster w) = tally (filter (\<lambda>s. group s \<noteq> []) (roster w))"
    by (simp add: tally_named)
  have 6: "(\<Sum>g \<in> dom (tally (roster w)). numberOf (tally (roster w) g)) =
       length (filter counted (roster w))"
    by (rule sum_tally)
  have 7: "list_ex (\<lambda>s. group s = []) (roster w) \<longrightarrow>
        (\<Sum>g \<in> dom (tally (roster w)). numberOf (tally (roster w) g)) < length (roster w)"
    using sum_tally_less by blast
  have 8: "fst (getGroupCounts (withoutEmptyGroupRows w)) = fst (getGroupCounts w)"
    by (simp add: getGroupCounts_ok [OF f] getGroupCounts_ok [OF f'] roster_without tally_named)
  have 9: "fst (isGroupFull cap g (withoutEmptyGroupRows w)) = fst (isGroupFull cap g w)"
    by (simp add: isGroupFull_ok [OF f] isGroupFull_ok [OF f'] roster_without countInGroup_named)
  have 10: "fst (groupsHandler e (withoutEmptyGroupRows w)) = fst (groupsHandler e w)"
    by (simp add: groupsHandler_ok [OF f] groupsHandler_ok [OF f'] roster_without countInGroup_named)
  from 1 2 3 4 5 6 7 8 9 10 show ?thesis by blast
qed

theorem C10_empty_group_rows_uncounted_witness:
  "faults (demoWorld [demoRow ''b@c.de'' ''0999999999'' ''A'', [js ''Chi'']]) = [] \<and>
   [js ''Chi''] \<in> set (drop 1 (sheet (demoWorld [demoRow ''b@c.de'' ''0999999999'' ''A'', [js ''Chi'']]))) \<and>
   cell [js ''Chi''] 4 = [] \<and>
   rowToStudent [js ''Chi''] \<in>
     set (roster (demoWorld [demoRow ''b@c.de'' ''0999999999'' ''A'', [js ''Chi'']])) \<and>
   tally (roster (demoWorld [demoRow ''b@c.de'' ''0999999999'' ''A'', [js ''Chi'']])) [] = None \<and>
   list_ex (\<lambda>s. group s = [])
     (roster (demoWorld [demoRow ''b@c.de'' ''0999999999'' ''A'', [js ''Chi'']])) \<and>
   (\<Sum>g \<in> dom (tally (roster (demoWorld [demoRow ''b@c.de'' ''0999999999'' ''A'', [js ''Chi'']]))).
      numberOf (tally (roster (demoWorld [demoRow ''b@c.de'' ''0999999999'' ''A'', [js ''Chi'']])) g))
     < length (roster (demoWorld [demoRow ''b@c.de'' ''0999999999'' ''A'', [js ''Chi'']])) \<and>
   fst (isGroupFull 1 (js ''A'')
          (withoutEmptyGroupRows (demoWorld [demoRow ''b@c.de'' ''0999999999'' ''A'', [js ''Chi'']]))) =
     fst (isGroupFull 1 (js ''A'') (demoWorld [demoRow ''b@c.de'' ''0999999999'' ''A'', [js ''Chi'']]))"
proof -
  have f: "faults (demoWorld [demoRow ''b@c.de'' ''0999999999'' ''A'', [js ''Chi'']]) = []"
    by (simp add: demo_fields)
  have c: "cell [js ''Chi''] 4 = []" by (simp add: cell_def)
  have m: "[js ''Chi''] \<in> set (drop 1 (sheet (demoWorld [demoRow ''b@c.de'' ''0999999999'' ''A'', [js ''Chi'']])))"
    by (simp add: demo_fields)
  have x: "list_ex (\<lambda>s. group s = [])
     (roster (demoWorld [demoRow ''b@c.de'' ''0999999999'' ''A'', [js ''Chi'']]))"
    by (simp add: demo_roster group_rowToStudent c)
  note T = C10_empty_group_rows_uncounted
    [OF f, of "[js ''Chi'']" 1 "js ''A''" "demoEnv [js ''A''] 1"]
  have a: "rowToStudent [js ''Chi''] \<in>
     set (roster (demoWorld [demoRow ''b@c.de'' ''0999999999'' ''A'', [js ''Chi'']]))"
    using T m c by blast
  have b: "tally (roster (demoWorld [demoRow ''b@c.de'' ''0999999999'' ''A'', [js ''Chi'']])) [] = None"
    using T by blast
  have s: "(\<Sum>g \<in> dom (tally (roster (demoWorld [demoRow ''b@c.de'' ''0999999999'' ''A'', [js ''Chi'']]))).
      numberOf (tally (roster (demoWorld [demoRow ''b@c.de'' ''0999999999'' ''A'', [js ''Chi'']])) g))
     < length (roster (demoWorld [demoRow ''b@c.de'' ''0999999999'' ''A'', [js ''Chi'']]))"
    using T x by blast
  have g: "fst (isGroupFull 1 (js ''A'')
          (withoutEmptyGroupRows (demoWorld [demoRow ''b@c.de'' ''0999999999'' ''A'', [js ''Chi'']]))) =
     fst (isGroupFull 1 (js ''A'') (demoWorld [demoRow ''b@c.de'' ''0999999999'' ''A'', [js ''Chi'']]))"
    using T by blast
  from f m c a b x s g show ?thesis by (intro conjI)
qed

end
